theory Spec2Isabelle
  imports Complex_Main "HOL-Library.Monad_Syntax"
begin

section \<open>Charney-Eliassen (1949) stationary-wave notebook\<close>

text \<open>
  The notebook \<^verbatim>\<open>Charney_Eliassen_1949.ipynb\<close> is a sequence of cells that assign
  top-level variables. Each variable becomes a function of the configuration (the
  values a user edits: latitude, resolution, wind, meridional wavenumber, damping
  time); the planetary constants are the literals of the notebook.

  Floating-point numbers are idealised as real numbers, except in the count of the grid
  points, which is also followed on doubles. A numpy division never raises:
  with a zero divisor it yields an IEEE infinity or NaN. Such a value is \<open>None\<close>; a
  quantity is \<open>Some v\<close> when it and everything it was computed from are finite reals.
  What IEEE arithmetic does with a non-finite operand is not followed any further.
  Python exceptions are values \<open>Inl e\<close> of a sum type.
\<close>

subsection \<open>Errors and divisions\<close>

datatype error = ZeroDivisionError | ValueError | IndexError | ArangeStepError

text \<open>Division of numpy floats (\<^verbatim>\<open>np.float64\<close> scalars and arrays).\<close>

definition fdiv :: "real \<Rightarrow> real \<Rightarrow> real option" where
  "fdiv p q = (if q = 0 then None else Some (p / q))"

definition cdiv :: "complex \<Rightarrow> complex \<Rightarrow> complex option" where
  "cdiv p q = (if q = 0 then None else Some (p / q))"

subsection \<open>Configuration, domain and planetary constants\<close>

record config =
  latd :: real
  n :: int
  u :: real
  m :: real
  tau :: real

text \<open>The values the notebook assigns to the configuration.\<close>

definition default_config :: config where
  "default_config = \<lparr>latd = 45, n = 480, u = 25, m = 2 * pi / 8000000, tau = 5 * 86164\<rparr>"

definition g :: real where "g = 98 / 10"

definition H :: real where "H = 8000"

definition a :: real where "a = 6371000"

definition omega :: real where "omega = 2 * pi / 86164"

text \<open>\<^verbatim>\<open>latr = np.deg2rad(latd)\<close>\<close>

definition latr :: "config \<Rightarrow> real" where
  "latr c = latd c * pi / 180"

definition f0 :: "config \<Rightarrow> real" where
  "f0 c = 2 * omega * sin (latr c)"

definition beta :: "config \<Rightarrow> real" where
  "beta c = 2 * omega * cos (latr c) / a"

definition Lx :: "config \<Rightarrow> real" where
  "Lx c = 2 * pi * a * cos (latr c)"

subsection \<open>The grid\<close>

text \<open>
  The number of grid points is the one result of the notebook that rounding changes by
  a whole unit, so the two grid lines are written over a rounding function \<open>rd\<close>, applied
  wherever the code rounds a double. With \<open>rd\<close> the identity they are the lines in exact
  arithmetic, which the notebook's variables \<open>dx\<close> and \<open>x\<close> below use, as every other
  variable of this theory does; with \<open>rd = fl\<close> they are the lines on doubles.

  \<open>fl\<close> is the nearest number with 53 significant bits, a tie going to the even one.
  The exponent range of doubles is not modelled.
\<close>

definition rne :: "real \<Rightarrow> int" where
  "rne v =
     (let f = \<lfloor>v\<rfloor>; d = v - of_int f
      in if d < 1 / 2 then f else if 1 / 2 < d then f + 1 else if even f then f else f + 1)"

definition fl :: "real \<Rightarrow> real" where
  "fl v =
     (if v = 0 then 0
      else let q = 2 powr (of_int \<lfloor>log 2 \<bar>v\<bar>\<rfloor> - 52) in of_int (rne (v / q)) * q)"

text \<open>\<^verbatim>\<open>dx = Lx/n\<close>\<close>

definition dx_with :: "(real \<Rightarrow> real) \<Rightarrow> real \<Rightarrow> int \<Rightarrow> real option" where
  "dx_with rd L N = map_option rd (fdiv L (of_int N))"

definition dx :: "config \<Rightarrow> real option" where
  "dx c = dx_with (\<lambda>v. v) (Lx c) (n c)"

text \<open>
  \<^verbatim>\<open>np.arange(start, stop, step)\<close> on floats. The number of values is the ceiling of
  the quotient \<open>(stop - start) / step\<close> as the code computes it. The first value is
  \<open>start\<close>, the second \<open>start + step\<close>, and the value of index \<open>i\<close> is
  \<open>start + i * delta\<close>, where \<open>delta\<close> is the second value minus the first. numpy
  rejects a zero step (the class of the exception depends on its version).
\<close>

definition arange_with :: "(real \<Rightarrow> real) \<Rightarrow> real \<Rightarrow> real \<Rightarrow> real \<Rightarrow> error + real list" where
  "arange_with rd start stop step =
     (if step = 0 then Inl ArangeStepError
      else let nxt = rd (start + step); delta = rd (nxt - start)
           in Inr (map (\<lambda>i. if i = 0 then start else if i = 1 then nxt
                             else rd (start + rd (real i * delta)))
                     [0..<nat \<lceil>rd (rd (stop - start) / step)\<rceil>]))"

definition arange :: "real \<Rightarrow> real \<Rightarrow> real \<Rightarrow> error + real list" where
  "arange start stop step = arange_with (\<lambda>v. v) start stop step"

text \<open>
  \<^verbatim>\<open>x = np.arange(-Lx/2., Lx/2., dx)\<close>, first as a function of the length and
  the spacing, then on the notebook's variables.
\<close>

definition grid_with :: "(real \<Rightarrow> real) \<Rightarrow> real \<Rightarrow> real option \<Rightarrow> error + real list option" where
  "grid_with rd L d =
     (case d of
        None \<Rightarrow> Inr None
      | Some dv \<Rightarrow> (case arange_with rd (rd (- L / 2)) (rd (L / 2)) dv of
                     Inl e \<Rightarrow> Inl e
                   | Inr xs \<Rightarrow> Inr (Some xs)))"

definition grid :: "real \<Rightarrow> real option \<Rightarrow> error + real list option" where
  "grid L d = grid_with (\<lambda>v. v) L d"

definition x :: "config \<Rightarrow> error + real list option" where
  "x c = grid (Lx c) (dx c)"

text \<open>\<^verbatim>\<open>ns = np.arange(n)\<close>\<close>

definition ns :: "config \<Rightarrow> int list" where
  "ns c = map int [0..<nat (n c)]"

subsection \<open>Model parameters\<close>

definition k :: "config \<Rightarrow> real option" where
  "k c = fdiv (2 * pi) (Lx c)"

definition Ks2 :: "config \<Rightarrow> real option" where
  "Ks2 c = fdiv (beta c) (u c)"

text \<open>\<^verbatim>\<open>K2 = (k*ns)**2. + m**2.\<close>\<close>

definition K2 :: "config \<Rightarrow> real option list" where
  "K2 c = map (\<lambda>j. do { kv \<leftarrow> k c; Some ((kv * of_int j)\<^sup>2 + (m c)\<^sup>2) }) (ns c)"

text \<open>\<^verbatim>\<open>r = 1./tau\<close> divides two Python floats, which raises on a zero divisor.\<close>

definition r :: "config \<Rightarrow> error + real" where
  "r c = (if tau c = 0 then Inl ZeroDivisionError else Inr (1 / tau c))"

text \<open>
  \<^verbatim>\<open>eps = ns*0.\<close> and then \<^verbatim>\<open>eps[1:n] = r*K2[1:n]/(k*ns[1:n]*u)\<close>: entry 0 stays
  zero, the others are overwritten.
\<close>

definition eps :: "config \<Rightarrow> error + real option list" where
  "eps c =
     (case r c of
        Inl e \<Rightarrow> Inl e
      | Inr rv \<Rightarrow>
          Inr (take 1 (map (\<lambda>j. Some 0) (ns c)) @
               map (\<lambda>(K2j, j). do { K \<leftarrow> K2j; kv \<leftarrow> k c; fdiv (rv * K) (kv * of_int j * u c) })
                 (zip (drop 1 (K2 c)) (drop 1 (ns c)))))"

subsection \<open>Gaussian topography\<close>

text \<open>
  \<^verbatim>\<open>gaussian_topography\<close> has the mountain height and width as local literals and
  reads the grid \<^verbatim>\<open>x\<close>; \<open>gaussian_h\<close> is its expression at one grid coordinate.
\<close>

definition gaussian_h :: "real \<Rightarrow> real" where
  "gaussian_h xi =
     (let h0 = 4000; dx_h = 1000000; A = h0 * dx_h
      in A * exp (- (xi\<^sup>2) / dx_h\<^sup>2) / (pi powr (1 / 2) * dx_h))"

definition gaussian_topography :: "real list \<Rightarrow> real list" where
  "gaussian_topography xs = map gaussian_h xs"

subsection \<open>Real-world topography\<close>

text \<open>
  The surface geopotential file, as far as \<^verbatim>\<open>world_topography\<close> reads it: the latitude
  coordinate and the variable \<^verbatim>\<open>srfgeo\<close>, indexed by time, latitude row and longitude.
\<close>

record dataset =
  latitude :: "real list"
  srfgeo :: "real list list list"

text \<open>\<^verbatim>\<open>argmin\<close>: the first index of a least entry; an empty array raises.\<close>

definition argmin :: "real list \<Rightarrow> error + nat" where
  "argmin v =
     (if v = [] then Inl ValueError
      else Inr (hd (filter (\<lambda>i. list_all (\<lambda>y. v ! i \<le> y) v) [0..<length v])))"

text \<open>
  The slice \<^verbatim>\<open>v[lo:hi]\<close>: a negative bound counts from the end, both bounds are
  clipped to the array, and the upper bound is excluded.
\<close>

definition py_slice :: "'a list \<Rightarrow> int \<Rightarrow> int \<Rightarrow> 'a list" where
  "py_slice v lo hi =
     (let len = int (length v);
          clip = (\<lambda>i. if i < 0 then max (i + len) 0 else min i len)
      in take (nat (clip hi - clip lo)) (drop (nat (clip lo)) v))"

text \<open>
  \<^verbatim>\<open>.mean(axis=0)\<close> of rows of \<open>w\<close> columns: the mean of each column; the mean over no
  rows is NaN.
\<close>

definition mean_axis0 :: "nat \<Rightarrow> real list list \<Rightarrow> real list option" where
  "mean_axis0 w rows =
     (if rows = [] \<and> 0 < w then None
      else Some (map (\<lambda>j. sum_list (map (\<lambda>row. row ! j) rows) / real (length rows)) [0..<w]))"

definition world_topography :: "dataset \<Rightarrow> config \<Rightarrow> error + real list option" where
  "world_topography ds c =
     (case argmin (map (\<lambda>y. \<bar>y - latd c\<bar>) (latitude ds)) of
        Inl e \<Rightarrow> Inl e
      | Inr iy \<Rightarrow>
          (case srfgeo ds of
             [] \<Rightarrow> Inl IndexError
           | slab # _ \<Rightarrow>
               Inr (map_option (map (\<lambda>v. v / g))
                      (mean_axis0 (case slab of [] \<Rightarrow> 0 | row # _ \<Rightarrow> length row)
                         (py_slice slab (int iy - 5) (int iy + 5))))))"

subsection \<open>Discrete Fourier transforms\<close>

text \<open>
  \<^verbatim>\<open>fft\<close> and \<^verbatim>\<open>ifft\<close> of a one-dimensional array of \<open>N\<close> entries:
  \<open>y[j] = \<Sum>l<N. v[l] * exp (- 2 pi i j l / N)\<close> and
  \<open>v[l] = (\<Sum>j<N. y[j] * exp (2 pi i j l / N)) / N\<close>. Both raise on an empty array.
\<close>

definition fft_entry :: "complex list \<Rightarrow> nat \<Rightarrow> complex" where
  "fft_entry v j = (\<Sum>l<length v. v ! l * cis (- (2 * pi * real j * real l / real (length v))))"

definition fft :: "complex list \<Rightarrow> error + complex list" where
  "fft v = (if v = [] then Inl ValueError else Inr (map (fft_entry v) [0..<length v]))"

definition ifft_entry :: "complex list \<Rightarrow> nat \<Rightarrow> complex" where
  "ifft_entry v l =
     (\<Sum>j<length v. v ! j * cis (2 * pi * real j * real l / real (length v))) / of_nat (length v)"

definition ifft :: "complex list \<Rightarrow> error + complex list" where
  "ifft v = (if v = [] then Inl ValueError else Inr (map (ifft_entry v) [0..<length v]))"

subsection \<open>Analytic solution to the barotropic vorticity equation\<close>

text \<open>\<^verbatim>\<open>sh = fft(h)\<close> and then \<^verbatim>\<open>sh[0] = 0.\<close>\<close>

definition sh :: "real list \<Rightarrow> error + complex list" where
  "sh h = (case fft (map complex_of_real h) of
             Inl e \<Rightarrow> Inl e
           | Inr s \<Rightarrow> Inr (s[0 := 0]))"

text \<open>
  numpy pairs the entries of two one-dimensional arrays of equal length; an array of
  length one is repeated along the other; any other two lengths raise.
\<close>

definition broadcast :: "'a list \<Rightarrow> 'b list \<Rightarrow> error + ('a \<times> 'b) list" where
  "broadcast v w =
     (if length v = length w then Inr (zip v w)
      else if length v = 1 then Inr (zip (replicate (length w) (hd v)) w)
      else if length w = 1 then Inr (zip v (replicate (length v) (hd w)))
      else Inl ValueError)"

text \<open>One entry of \<^verbatim>\<open>H*(K2 - Ks2 - 1j*eps)\<close>.\<close>

definition denom :: "config \<Rightarrow> real option \<Rightarrow> real option \<Rightarrow> complex option" where
  "denom c K2j epsj =
     do { K \<leftarrow> K2j; S \<leftarrow> Ks2 c; e \<leftarrow> epsj;
          Some (of_real H * (of_real K - of_real S - \<i> * of_real e)) }"

text \<open>One entry of \<^verbatim>\<open>f0*sh/(H*(K2 - Ks2 - 1j*eps))\<close>.\<close>

definition spsi_entry :: "config \<Rightarrow> complex \<Rightarrow> real option \<Rightarrow> real option \<Rightarrow> complex option" where
  "spsi_entry c shj K2j epsj = do { d \<leftarrow> denom c K2j epsj; cdiv (of_real (f0 c) * shj) d }"

definition spsi :: "config \<Rightarrow> real list \<Rightarrow> error + complex option list" where
  "spsi c h =
     (case eps c of
        Inl e \<Rightarrow> Inl e
      | Inr ev \<Rightarrow>
          (case sh h of
             Inl e \<Rightarrow> Inl e
           | Inr s \<Rightarrow>
               (case broadcast s (zip (K2 c) ev) of
                  Inl e \<Rightarrow> Inl e
                | Inr ts \<Rightarrow> Inr (map (\<lambda>(shj, K2j, epsj). spsi_entry c shj K2j epsj) ts))))"

text \<open>
  \<^verbatim>\<open>psi = np.real(ifft(spsi))\<close>. The inverse transform mixes every entry into every
  result, so the result is followed only when all entries of \<^verbatim>\<open>spsi\<close> are finite.
\<close>

definition psi :: "config \<Rightarrow> real list \<Rightarrow> error + real list option" where
  "psi c h =
     (case spsi c h of
        Inl e \<Rightarrow> Inl e
      | Inr sp \<Rightarrow>
          if sp = [] then Inl ValueError
          else (case those sp of
                  None \<Rightarrow> Inr None
                | Some vs \<Rightarrow> (case ifft vs of
                               Inl e \<Rightarrow> Inl e
                             | Inr ps \<Rightarrow> Inr (Some (map Re ps)))))"

text \<open>
  A spectrum of \<open>N\<close> coefficients is Hermitian-symmetric when the coefficient of index
  \<open>(N - j) mod N\<close> is the complex conjugate of the coefficient of index \<open>j\<close>.
\<close>

definition hermitian :: "complex list \<Rightarrow> bool" where
  "hermitian s =
     list_all (\<lambda>j. s ! ((length s - j) mod length s) = cnj (s ! j)) [0..<length s]"

subsection \<open>Closed forms of the specification\<close>

text \<open>
  The specification's per-wavenumber quantities, written on the reals: the zonal
  wavenumber \<open>k_j = 2 pi j / Lx\<close>, the squared total wavenumber, the damping with its
  entry 0 set to zero, and the transfer applied to a spectrum \<open>s\<close>.
\<close>

definition spec_k :: "config \<Rightarrow> nat \<Rightarrow> real" where
  "spec_k c j = 2 * pi * real j / Lx c"

definition spec_K2 :: "config \<Rightarrow> nat \<Rightarrow> real" where
  "spec_K2 c j = (spec_k c j)\<^sup>2 + (m c)\<^sup>2"

definition spec_eps :: "config \<Rightarrow> nat \<Rightarrow> real" where
  "spec_eps c j = (if j = 0 then 0 else spec_K2 c j / (tau c * spec_k c j * u c))"

definition spec_denom :: "config \<Rightarrow> nat \<Rightarrow> complex" where
  "spec_denom c j =
     of_real H * (of_real (spec_K2 c j) - of_real (beta c / u c) - \<i> * of_real (spec_eps c j))"

definition spec_spsi :: "config \<Rightarrow> complex list \<Rightarrow> nat \<Rightarrow> complex" where
  "spec_spsi c s j = of_real (f0 c) * s ! j / spec_denom c j"

subsection \<open>Example inputs\<close>

text \<open>
  The notebook's configuration on two grid points, with a wind for which the squared
  stationary wavenumber \<open>beta / u\<close> equals the squared meridional wavenumber.
\<close>

definition resonant_config :: config where
  "resonant_config = default_config\<lparr>n := 2, u := beta default_config, m := 1\<rparr>"

text \<open>The same at the equator.\<close>

definition equator_resonant_config :: config where
  "equator_resonant_config =
     default_config\<lparr>latd := 0, n := 2, u := beta (default_config\<lparr>latd := 0\<rparr>), m := 1\<rparr>"

text \<open>The notebook's configuration on two grid points, without wind.\<close>

definition calm_config :: config where
  "calm_config = default_config\<lparr>n := 2, u := 0\<rparr>"

text \<open>The notebook's configuration on two grid points.\<close>

definition pair_config :: config where
  "pair_config = default_config\<lparr>n := 2\<rparr>"

text \<open>The notebook's configuration on four grid points.\<close>

definition quad_config :: config where
  "quad_config = default_config\<lparr>n := 4\<rparr>"

text \<open>
  A file of eleven latitude rows and one longitude whose geopotential is zero except
  in the last row, five rows above the row of latitude 45.
\<close>

definition band_dataset :: dataset where
  "band_dataset =
     \<lparr>latitude = [40, 41, 42, 43, 44, 45, 46, 47, 48, 49, 50],
      srfgeo = [[[0], [0], [0], [0], [0], [0], [0], [0], [0], [0], [1078 / 10]]]\<rparr>"

text \<open>
  The specification's reading of \<^verbatim>\<open>world_topography\<close>: the mean over the rows at
  most five rows away from the nearest latitude row, on both sides.
\<close>

definition spec_world_topography :: "dataset \<Rightarrow> config \<Rightarrow> error + real list option" where
  "spec_world_topography ds c =
     (case argmin (map (\<lambda>y. \<bar>y - latd c\<bar>) (latitude ds)) of
        Inl e \<Rightarrow> Inl e
      | Inr iy \<Rightarrow>
          (case srfgeo ds of
             [] \<Rightarrow> Inl IndexError
           | slab # _ \<Rightarrow>
               Inr (map_option (map (\<lambda>v. v / g))
                      (mean_axis0 (case slab of [] \<Rightarrow> 0 | row # _ \<Rightarrow> length row)
                         (map (\<lambda>i. slab ! i)
                            (filter (\<lambda>i. \<bar>int i - int iy\<bar> \<le> 5) [0..<length slab]))))))"

section \<open>Properties\<close>

subsection \<open>Index arrays and wavenumbers\<close>

lemma length_ns: "length (ns c) = nat (n c)"
  by (simp add: ns_def)

lemma nth_ns: "j < nat (n c) \<Longrightarrow> ns c ! j = int j"
  by (simp add: ns_def)

lemma length_K2: "length (K2 c) = nat (n c)"
  by (simp add: K2_def ns_def)

lemma k_finite: "Lx c \<noteq> 0 \<Longrightarrow> k c = Some (2 * pi / Lx c)"
  by (simp add: k_def fdiv_def)

lemma nth_K2:
  "Lx c \<noteq> 0 \<Longrightarrow> j < nat (n c) \<Longrightarrow>
     K2 c ! j = Some ((2 * pi / Lx c * real j)\<^sup>2 + (m c)\<^sup>2)"
  by (simp add: K2_def ns_def k_finite)

lemma length_eps: "eps c = Inr ev \<Longrightarrow> length ev = nat (n c)"
  by (auto simp: eps_def length_K2 length_ns split: sum.splits)

lemma eps_returns: "tau c \<noteq> 0 \<Longrightarrow> \<exists>ev. eps c = Inr ev"
  by (simp add: eps_def r_def)

lemma nth_eps_0: "eps c = Inr ev \<Longrightarrow> 0 < n c \<Longrightarrow> ev ! 0 = Some 0"
  by (auto simp: eps_def length_K2 length_ns nth_append split: sum.splits)

lemma nth_eps:
  assumes "tau c \<noteq> 0" "u c \<noteq> 0" "Lx c \<noteq> 0" "1 \<le> j" "j < nat (n c)" "eps c = Inr ev"
  shows "ev ! j = Some (((2 * pi / Lx c * real j)\<^sup>2 + (m c)\<^sup>2)
                        / (tau c * (2 * pi * real j / Lx c) * u c))"
  using assms
  by (auto simp: eps_def r_def nth_append length_ns length_K2 nth_K2 nth_ns k_finite fdiv_def)

lemma Lx_default: "Lx default_config = 2 * pi * a * (sqrt 2 / 2)"
proof -
  have "latr default_config = pi / 4"
    by (simp add: latr_def default_config_def)
  then have "cos (latr default_config) = sqrt 2 / 2"
    by (simp only: cos_45)
  then show ?thesis
    by (simp add: Lx_def)
qed

lemma Lx_default_pos: "0 < Lx default_config"
  by (simp add: Lx_default a_def)

text \<open>The latitude circle has a positive length at every latitude between the poles.\<close>

lemma Lx_pos_of_latitude:
  assumes "- 90 < latd c" and "latd c < 90"
  shows "0 < Lx c"
proof -
  have "pi * (- 90) < pi * latd c" "pi * latd c < pi * 90"
    using assms by (simp_all only: mult_strict_left_mono pi_gt_zero)
  then have "- (pi / 2) < latr c" "latr c < pi / 2"
    by (simp_all add: latr_def mult.commute)
  then have "0 < cos (latr c)"
    by (rule cos_gt_zero_pi)
  then show ?thesis
    by (simp add: Lx_def a_def)
qed

text \<open>
  C3. The damping array has \<open>eps[0] = 0\<close>, and for every index \<open>1 \<le> j \<le> n - 1\<close>
  its entry is \<open>K2[j] / (tau * k_j * u)\<close> with \<open>k_j = 2 pi j / Lx\<close>, for a positive
  damping time and a non-zero wind, on a latitude circle of non-zero length (it has
  one at every latitude strictly between the poles).
\<close>

theorem eps_invariant:
  assumes "0 < tau c" and "u c \<noteq> 0" and "Lx c \<noteq> 0"
  shows "\<exists>ev. eps c = Inr ev \<and> length ev = nat (n c) \<and>
           (0 < n c \<longrightarrow> ev ! 0 = Some 0) \<and>
           (\<forall>j. 1 \<le> j \<and> j < nat (n c) \<longrightarrow>
              (\<exists>K. K2 c ! j = Some K \<and>
                   ev ! j = Some (K / (tau c * (2 * pi * real j / Lx c) * u c))))"
proof -
  from assms(1) obtain ev where ev: "eps c = Inr ev"
    using eps_returns [of c] by auto
  have "K2 c ! j = Some ((2 * pi / Lx c * real j)\<^sup>2 + (m c)\<^sup>2) \<and>
        ev ! j = Some (((2 * pi / Lx c * real j)\<^sup>2 + (m c)\<^sup>2)
                        / (tau c * (2 * pi * real j / Lx c) * u c))"
    if "1 \<le> j" "j < nat (n c)" for j
    using that assms ev nth_K2 [of c j] nth_eps [of c j ev] by simp
  then show ?thesis
    using ev length_eps [OF ev] nth_eps_0 [OF ev] by auto
qed

theorem eps_invariant_witness:
  "0 < tau default_config \<and> u default_config \<noteq> 0 \<and> Lx default_config \<noteq> 0 \<and>
   (\<exists>ev. eps default_config = Inr ev \<and> length ev = 480 \<and> ev ! 0 = Some 0 \<and>
      (\<exists>K. K2 default_config ! 1 = Some K \<and>
           ev ! 1 = Some (K / (tau default_config * (2 * pi * 1 / Lx default_config)
                                 * u default_config))))"
proof -
  have h: "0 < tau default_config" "u default_config \<noteq> 0" "Lx default_config \<noteq> 0"
    using Lx_default_pos by (simp_all add: default_config_def)
  have n: "n default_config = 480"
    by (simp add: default_config_def)
  from eps_invariant [OF h] obtain ev where
    ev: "eps default_config = Inr ev" "length ev = nat (n default_config)"
        "0 < n default_config \<longrightarrow> ev ! 0 = Some 0"
        "\<forall>j. 1 \<le> j \<and> j < nat (n default_config) \<longrightarrow>
           (\<exists>K. K2 default_config ! j = Some K \<and>
                ev ! j = Some (K / (tau default_config * (2 * pi * real j / Lx default_config)
                                      * u default_config)))"
    by blast
  from ev(4) have "\<exists>K. K2 default_config ! 1 = Some K \<and>
      ev ! 1 = Some (K / (tau default_config * (2 * pi * real 1 / Lx default_config)
                            * u default_config))"
    unfolding n by (rule allE [where x = 1]) simp
  then show ?thesis
    using h ev(1,2,3) n by simp
qed

subsection \<open>The grid\<close>

lemma arange_exact:
  "arange start stop step =
     (if step = 0 then Inl ArangeStepError
      else Inr (map (\<lambda>i. start + real i * step) [0..<nat \<lceil>(stop - start) / step\<rceil>]))"
  by (simp add: arange_def arange_with_def Let_def)

lemma grid_values:
  assumes "0 < N" and "0 < L"
  shows "grid L (fdiv L (of_int N)) =
           Inr (Some (map (\<lambda>i. - L / 2 + real i * (L / of_int N)) [0..<nat N]))"
  using assms by (simp add: grid_def grid_with_def fdiv_def arange_def [symmetric] arange_exact)

text \<open>
  In exact arithmetic the grid of a positive even \<open>n\<close> and a positive \<open>Lx\<close> has
  \<open>n\<close> coordinates from \<open>- Lx / 2\<close> in steps of \<open>Lx / n\<close>, all in
  \<open>[- Lx / 2, Lx / 2)\<close>: the grid that the comment of the code describes, from
  \<open>- x_max / 2\<close> to \<open>x_max / 2 - dx\<close>.
\<close>

lemma grid_exact_uniform:
  assumes "0 < N" and "even N" and "0 < L"
  shows "\<exists>xs. grid L (fdiv L (of_int N)) = Inr (Some xs) \<and> length xs = nat N \<and>
           xs ! 0 = - L / 2 \<and>
           (\<forall>i. i < nat N \<longrightarrow> xs ! i = - L / 2 + real i * (L / of_int N)) \<and>
           (\<forall>i. Suc i < nat N \<longrightarrow> xs ! Suc i - xs ! i = L / of_int N) \<and>
           (\<forall>i. i < nat N \<longrightarrow> - L / 2 \<le> xs ! i \<and> xs ! i < L / 2)"
proof -
  let ?xs = "map (\<lambda>i. - L / 2 + real i * (L / of_int N)) [0..<nat N]"
  have d: "0 < L / of_int N"
    using assms by simp
  have lo: "- L / 2 \<le> ?xs ! i" if "i < nat N" for i
  proof -
    have "0 \<le> real i * (L / of_int N)"
      using d by (intro mult_nonneg_nonneg) simp_all
    then show ?thesis using that by simp
  qed
  have hi: "?xs ! i < L / 2" if "i < nat N" for i
  proof -
    have "real i < of_int N" using that by linarith
    then have "real i * (L / of_int N) < of_int N * (L / of_int N)"
      using d by (simp only: mult_strict_right_mono)
    also have "\<dots> = L" using assms by simp
    finally have "- L / 2 + real i * (L / of_int N) < L / 2" by linarith
    then show ?thesis using that by (simp only: nth_map_upt add_0 minus_nat.diff_0)
  qed
  have sp: "?xs ! Suc i - ?xs ! i = L / of_int N" if "Suc i < nat N" for i
    using that by (simp add: algebra_simps add_divide_distrib)
  have "grid L (fdiv L (of_int N)) = Inr (Some ?xs)"
    using assms by (simp add: grid_values)
  moreover have "length ?xs = nat N" by simp
  moreover have "?xs ! 0 = - L / 2" using assms by simp
  moreover have "\<forall>i. i < nat N \<longrightarrow> ?xs ! i = - L / 2 + real i * (L / of_int N)" by simp
  ultimately show ?thesis
    using lo hi sp by blast
qed

text \<open>Rounding to doubles, evaluated through the exponent of the argument.\<close>

lemma floor_log2:
  assumes "0 < v" and "2 powr of_int e \<le> v" and "v < 2 powr (of_int e + 1)"
  shows "\<lfloor>log 2 v\<rfloor> = e"
proof -
  have "of_int e \<le> log 2 v"
    using assms(1,2) by (simp add: le_log_iff)
  moreover have "log 2 v < of_int e + 1"
    using assms(1,3) by (simp add: log_less_iff)
  ultimately show ?thesis
    by (simp add: floor_unique)
qed

lemma fl_scaled:
  assumes "s = 2 powr of_int p" and "2 ^ 52 * s \<le> \<bar>v\<bar>" and "\<bar>v\<bar> < 2 ^ 53 * s"
  shows "fl v = of_int (rne (v / s)) * s"
proof -
  have spos: "0 < s" using assms(1) by simp
  have "0 < 2 ^ 52 * s"
    using spos by simp
  then have v: "0 < \<bar>v\<bar>"
    using assms(2) by linarith
  have e52: "2 powr of_int (p + 52) = 2 ^ 52 * s"
    unfolding assms(1) by (simp add: powr_add powr_numeral mult.commute)
  have e53: "2 powr (of_int (p + 52) + 1) = 2 ^ 53 * s"
    unfolding assms(1) by (simp add: powr_add powr_numeral mult.commute)
  have "\<lfloor>log 2 \<bar>v\<bar>\<rfloor> = p + 52"
    by (rule floor_log2 [OF v]) (simp_all only: e52 e53 assms(2,3))
  then have "of_int \<lfloor>log 2 \<bar>v\<bar>\<rfloor> - 52 = (of_int p :: real)"
    by simp
  then have q: "2 powr (of_int \<lfloor>log 2 \<bar>v\<bar>\<rfloor> - 52) = s"
    by (simp only: assms(1))
  have "v \<noteq> 0" using v by auto
  then show ?thesis
    unfolding fl_def Let_def q by (simp only: if_False)
qed

lemma scale_down: "(1 / 2 ^ j :: real) = 2 powr of_int (- int j)"
  by (simp add: powr_minus_divide powr_realpow)

lemma fl_down:
  assumes "2 ^ 52 \<le> \<bar>v\<bar> * 2 ^ j" and "\<bar>v\<bar> * 2 ^ j < 2 ^ 53"
  shows "fl v = of_int (rne (v * 2 ^ j)) / 2 ^ j"
proof -
  have "fl v = of_int (rne (v / (1 / 2 ^ j))) * (1 / 2 ^ j)"
    by (rule fl_scaled [OF scale_down]) (use assms in \<open>simp_all add: field_simps\<close>)
  then show ?thesis by simp
qed

lemma fl_value:
  assumes "2 ^ 52 \<le> \<bar>v\<bar> * 2 ^ j" and "\<bar>v\<bar> * 2 ^ j < 2 ^ 53" and "rne (v * 2 ^ j) = z"
  shows "fl v = of_int z / 2 ^ j"
  using fl_down [OF assms(1,2)] assms(3) by simp



lemma arange_with_last:
  assumes "step \<noteq> 0"
    and "rd (stop - start) = w" and "rd (w / step) = q" and "nat \<lceil>q\<rceil> = Suc cnt"
    and "2 \<le> cnt"
    and "rd (real cnt * rd (rd (start + step) - start)) = mc" and "rd (start + mc) = xc"
  shows "\<exists>xs. arange_with rd start stop step = Inr xs \<and> length xs = Suc cnt \<and>
           xs ! 0 = start \<and> xs ! cnt = xc"
proof -
  define f where "f = (\<lambda>i. if i = 0 then start else if i = 1 then rd (start + step)
                 else rd (start + rd (real i * rd (rd (start + step) - start))))"
  have "nat \<lceil>rd (rd (stop - start) / step)\<rceil> = Suc cnt"
    by (simp only: assms(2,3,4))
  then have a: "arange_with rd start stop step = Inr (map f [0..<Suc cnt])"
    using assms(1) by (simp only: arange_with_def Let_def f_def if_False)
  have "f cnt = rd (start + rd (real cnt * rd (rd (start + step) - start)))"
    using assms(5) by (simp add: f_def)
  then have l: "f cnt = xc"
    by (simp only: assms(6,7))
  have z: "f 0 = start"
    by (simp add: f_def)
  have "map f [0..<Suc cnt] ! cnt = f (0 + cnt)"
    by (rule nth_map_upt) simp
  then have l': "map f [0..<Suc cnt] ! cnt = xc"
    using l by simp
  have "map f [0..<Suc cnt] ! 0 = f (0 + 0)"
    by (rule nth_map_upt) simp
  then have z': "map f [0..<Suc cnt] ! 0 = start"
    using z by simp
  have len: "length (map f [0..<Suc cnt]) = Suc cnt"
    by simp
  from a l' z' len show ?thesis
    by blast
qed

text \<open>
  C6. On doubles the grid does not always have \<open>n\<close> coordinates in
  \<open>[- Lx / 2, Lx / 2)\<close>. For \<open>Lx = 17\<close> and \<open>n = 14\<close> the spacing \<open>17 / 14\<close> is
  rounded down, the quotient \<open>Lx / dx\<close> that \<^verbatim>\<open>np.arange\<close> takes the ceiling of is
  above 14, and the grid has 15 coordinates, the last being the excluded endpoint
  \<open>+ Lx / 2\<close>.
\<close>

theorem grid_double_endpoint:
  "\<exists>xs. grid_with fl 17 (dx_with fl 17 14) = Inr (Some xs) \<and> length xs = 15 \<and>
        xs ! 0 = - 17 / 2 \<and> xs ! 14 = 17 / 2"
proof -
  let ?D = "5468656690378459 / 2 ^ 52 :: real"
  let ?Q = "7881299347898369 / 2 ^ 49 :: real"
  have d: "fl (17 / 14) = of_int 5468656690378459 / 2 ^ 52"
    by (rule fl_value) (simp_all add: rne_def Let_def)
  have dx: "dx_with fl 17 14 = Some ?D"
    using d by (simp add: dx_with_def fdiv_def)
  have s: "fl (- 17 / 2) = - 17 / 2"
  proof -
    have "fl (- 17 / 2) = of_int (- 4785074604081152) / 2 ^ 49"
      by (rule fl_value) (simp_all add: rne_def Let_def)
    then show ?thesis by simp
  qed
  have t: "fl (17 / 2) = 17 / 2"
  proof -
    have "fl (17 / 2) = of_int 4785074604081152 / 2 ^ 49"
      by (rule fl_value) (simp_all add: rne_def Let_def)
    then show ?thesis by simp
  qed
  have w: "fl (17 / 2 - - 17 / 2) = 17"
  proof -
    have "fl (17 / 2 - - 17 / 2) = of_int 4785074604081152 / 2 ^ 48"
      by (rule fl_value) (simp_all add: rne_def Let_def)
    then show ?thesis by simp
  qed
  have q: "fl (17 / ?D) = ?Q"
  proof -
    have "fl (17 / ?D) = of_int 7881299347898369 / 2 ^ 49"
      by (rule fl_value) (simp_all add: rne_def Let_def)
    then show ?thesis by simp
  qed
  have c: "nat \<lceil>?Q\<rceil> = Suc 14"
    by (simp add: ceiling_divide_eq_div_numeral)
  have nx: "fl (- 17 / 2 + ?D) = of_int (- 8202985035567689) / 2 ^ 50"
    by (rule fl_value) (simp_all add: rne_def Let_def)
  have de: "fl (of_int (- 8202985035567689) / 2 ^ 50 - - 17 / 2) = of_int 5468656690378460 / 2 ^ 52"
    by (rule fl_value) (simp_all add: rne_def Let_def)
  have m: "fl (real 14 * (of_int 5468656690378460 / 2 ^ 52)) = 17"
  proof -
    have "fl (real 14 * (of_int 5468656690378460 / 2 ^ 52)) = of_int 4785074604081152 / 2 ^ 48"
      by (rule fl_value) (simp_all add: rne_def Let_def)
    then show ?thesis by simp
  qed
  have e: "fl (- 17 / 2 + 17) = 17 / 2"
  proof -
    have "fl (- 17 / 2 + 17) = of_int 4785074604081152 / 2 ^ 49"
      by (rule fl_value) (simp_all add: rne_def Let_def)
    then show ?thesis by simp
  qed
  have "\<exists>xs. arange_with fl (- 17 / 2) (17 / 2) ?D = Inr xs \<and> length xs = Suc 14 \<and>
          xs ! 0 = - 17 / 2 \<and> xs ! 14 = 17 / 2"
  proof (rule arange_with_last [where w = 17 and q = ?Q and mc = 17])
    show "?D \<noteq> 0" by simp
    show "fl (17 / 2 - - 17 / 2) = 17" by (rule w)
    show "fl (17 / ?D) = ?Q" by (rule q)
    show "nat \<lceil>?Q\<rceil> = Suc 14" by (rule c)
    show "2 \<le> (14 :: nat)" by simp
    show "fl (real 14 * fl (fl (- 17 / 2 + ?D) - - 17 / 2)) = 17"
      unfolding nx de by (rule m)
    show "fl (- 17 / 2 + 17) = 17 / 2" by (rule e)
  qed
  then show ?thesis
    unfolding dx grid_with_def s t by auto
qed

subsection \<open>Gaussian topography\<close>

text \<open>Bounds on \<open>pi\<close> from the Taylor polynomials of the sine at \<open>pi / 6\<close>.\<close>

lemma sin_upper6: "sin (t::real) \<le> t - t^3 / 6 + t^5 / 120 + \<bar>t\<bar>^6 / 720"
proof -
  have b: "\<bar>sin t - (\<Sum>m<6. sin_coeff m * t ^ m)\<bar> \<le> inverse (fact 6) * \<bar>t\<bar> ^ 6"
    by (rule Maclaurin_sin_bound)
  have e: "(\<Sum>m<6. sin_coeff m * t ^ m) =
      sin_coeff 0 * t ^ 0 + sin_coeff 1 * t ^ 1 + sin_coeff 2 * t ^ 2 + sin_coeff 3 * t ^ 3
      + sin_coeff 4 * t ^ 4 + sin_coeff 5 * t ^ 5"
    by (simp add: eval_nat_numeral)
  have c: "sin_coeff 0 = 0" "sin_coeff 1 = 1" "sin_coeff 2 = 0" "sin_coeff 3 = - 1 / 6"
    "sin_coeff 4 = 0" "sin_coeff 5 = 1 / 120"
    by (simp_all add: sin_coeff_def fact_numeral)
  have s: "(\<Sum>m<6. sin_coeff m * t ^ m) = t - t^3 / 6 + t^5 / 120"
    unfolding e c by simp
  have f: "inverse (fact 6 :: real) * \<bar>t\<bar> ^ 6 = \<bar>t\<bar>^6 / 720"
    by (simp add: fact_numeral)
  from b have "\<bar>sin t - (t - t^3 / 6 + t^5 / 120)\<bar> \<le> \<bar>t\<bar>^6 / 720"
    unfolding s f .
  then show ?thesis by linarith
qed

lemma sin_lower4: "t - t^3 / 6 - \<bar>t\<bar>^4 / 24 \<le> sin (t::real)"
proof -
  have b: "\<bar>sin t - (\<Sum>m<4. sin_coeff m * t ^ m)\<bar> \<le> inverse (fact 4) * \<bar>t\<bar> ^ 4"
    by (rule Maclaurin_sin_bound)
  have e: "(\<Sum>m<4. sin_coeff m * t ^ m) =
      sin_coeff 0 * t ^ 0 + sin_coeff 1 * t ^ 1 + sin_coeff 2 * t ^ 2 + sin_coeff 3 * t ^ 3"
    by (simp add: eval_nat_numeral)
  have c: "sin_coeff 0 = 0" "sin_coeff 1 = 1" "sin_coeff 2 = 0" "sin_coeff 3 = - 1 / 6"
    by (simp_all add: sin_coeff_def fact_numeral)
  have s: "(\<Sum>m<4. sin_coeff m * t ^ m) = t - t^3 / 6"
    unfolding e c by simp
  have f: "inverse (fact 4 :: real) * \<bar>t\<bar> ^ 4 = \<bar>t\<bar>^4 / 24"
    by (simp add: fact_numeral)
  from b have "\<bar>sin t - (t - t^3 / 6)\<bar> \<le> \<bar>t\<bar>^4 / 24"
    unfolding s f .
  then show ?thesis by linarith
qed

lemma pi_gt_31: "31 / 10 < pi"
proof (rule ccontr)
  assume "\<not> 31 / 10 < pi"
  then have le: "pi / 6 \<le> 31 / 60" by simp
  have "31 / 60 \<le> pi / 2" using pi_ge_two by simp
  moreover have "- (pi / 2) \<le> pi / 6" by simp
  ultimately have "sin (pi / 6) \<le> sin (31 / 60 :: real)"
    using le by (intro sin_monotone_2pi_le) auto
  then have "1 / 2 \<le> sin (31 / 60 :: real)" by (simp add: sin_30)
  moreover have "sin (31 / 60 :: real) < 1 / 2"
    using sin_upper6 [of "31 / 60"] by (simp add: power_divide)
  ultimately show False by simp
qed

lemma pi_lt_32: "pi < 32 / 10"
proof (rule ccontr)
  assume "\<not> pi < 32 / 10"
  then have ge: "8 / 15 \<le> pi / 6" by simp
  have "pi / 6 \<le> pi / 2" by simp
  moreover have "- (pi / 2) \<le> (8 / 15 :: real)" using pi_ge_two by simp
  ultimately have "sin (8 / 15 :: real) \<le> sin (pi / 6)"
    using ge by (intro sin_monotone_2pi_le) auto
  then have "sin (8 / 15 :: real) \<le> 1 / 2" by (simp add: sin_30)
  moreover have "1 / 2 < sin (8 / 15 :: real)"
    using sin_lower4 [of "8 / 15"] by (simp add: power_divide)
  ultimately show False by simp
qed

lemma sqrt_pi_bounds: "176 / 100 < sqrt pi" "sqrt pi < 179 / 100"
proof -
  show "176 / 100 < sqrt pi"
    by (rule real_less_rsqrt) (use pi_gt_31 in \<open>simp add: power2_eq_square\<close>)
  show "sqrt pi < 179 / 100"
    by (rule real_less_lsqrt) (use pi_lt_32 in \<open>simp_all add: power2_eq_square\<close>)
qed

lemma gaussian_h_formula:
  "gaussian_h xi = 4000 * 1000000 * exp (- ((xi / 1000000)\<^sup>2)) / sqrt (pi * 1000000\<^sup>2)"
  by (simp add: gaussian_h_def Let_def powr_half_sqrt real_sqrt_mult power_divide)

lemma gaussian_h_peak: "gaussian_h 0 = 4000 / sqrt pi"
  by (simp add: gaussian_h_def Let_def powr_half_sqrt)

lemma x_default:
  "x default_config =
     Inr (Some (map (\<lambda>i. - Lx default_config / 2 + real i * (Lx default_config / 480))
                 [0..<480]))"
proof -
  have "n default_config = 480" by (simp add: default_config_def)
  then show ?thesis
    using grid_values [of 480 "Lx default_config"] Lx_default_pos
    by (simp add: x_def dx_def dx_with_def option.map_ident)
qed

text \<open>
  C8. At every coordinate the Gaussian topography is
  \<open>h0 * dx_h * exp (- (x / dx_h)\<^sup>2) / sqrt (pi * dx_h\<^sup>2)\<close> with \<open>h0 = 4000\<close> and
  \<open>dx_h = 10\<^sup>6\<close>; at \<open>x = 0\<close> this is \<open>h0 * dx_h / sqrt (pi * dx_h\<^sup>2) = h0 / sqrt pi\<close>,
  within one percent of 2256.8; and on the notebook's grid of 480 points the coordinate
  0 is the grid point of index 240, where the topography has this peak value.
\<close>

theorem gaussian_topography_peak:
  "gaussian_topography xs =
     map (\<lambda>xi. 4000 * 1000000 * exp (- ((xi / 1000000)\<^sup>2)) / sqrt (pi * 1000000\<^sup>2)) xs \<and>
   gaussian_h 0 = 4000 * 1000000 / sqrt (pi * 1000000\<^sup>2) \<and>
   gaussian_h 0 = 4000 / sqrt pi \<and>
   \<bar>gaussian_h 0 - 22568 / 10\<bar> \<le> (1 / 100) * (22568 / 10) \<and>
   (\<exists>xs. x default_config = Inr (Some xs) \<and> length xs = 480 \<and> xs ! 240 = 0 \<and>
         gaussian_topography xs ! 240 = 4000 / sqrt pi)"
proof -
  have f: "gaussian_topography xs =
     map (\<lambda>xi. 4000 * 1000000 * exp (- ((xi / 1000000)\<^sup>2)) / sqrt (pi * 1000000\<^sup>2)) xs"
    by (simp add: gaussian_topography_def gaussian_h_formula)
  have p: "gaussian_h 0 = 4000 * 1000000 / sqrt (pi * 1000000\<^sup>2)"
    by (simp add: gaussian_h_formula)
  have pos: "0 < sqrt pi" by simp
  have hi: "4000 / sqrt pi \<le> 22568 / 10 + (1 / 100) * (22568 / 10)"
    using sqrt_pi_bounds(1) pos by (simp add: field_simps)
  have lo: "22568 / 10 - (1 / 100) * (22568 / 10) \<le> 4000 / sqrt pi"
    using sqrt_pi_bounds(2) pos by (simp add: field_simps)
  have t: "\<bar>gaussian_h 0 - 22568 / 10\<bar> \<le> (1 / 100) * (22568 / 10)"
    using hi lo unfolding gaussian_h_peak abs_le_iff by linarith
  let ?xs = "map (\<lambda>i. - Lx default_config / 2 + real i * (Lx default_config / 480)) [0..<480]"
  have z: "?xs ! 240 = 0" by simp
  have "gaussian_topography ?xs ! 240 = gaussian_h (?xs ! 240)"
    unfolding gaussian_topography_def by (rule nth_map) simp
  then have "gaussian_topography ?xs ! 240 = 4000 / sqrt pi"
    unfolding z gaussian_h_peak .
  then have g: "\<exists>xs. x default_config = Inr (Some xs) \<and> length xs = 480 \<and> xs ! 240 = 0 \<and>
         gaussian_topography xs ! 240 = 4000 / sqrt pi"
    using x_default z by (intro exI [of _ ?xs]) simp
  show ?thesis
    using f p gaussian_h_peak t g by blast
qed

subsection \<open>The spectral transfer in closed form\<close>

lemma K2_closed:
  assumes "Lx c \<noteq> 0"
  shows "K2 c = map (\<lambda>j. Some (spec_K2 c j)) [0..<nat (n c)]"
proof (rule nth_equalityI)
  show "length (K2 c) = length (map (\<lambda>j. Some (spec_K2 c j)) [0..<nat (n c)])"
    by (simp add: length_K2)
  fix j assume "j < length (K2 c)"
  then have "j < nat (n c)" by (simp add: length_K2)
  then show "K2 c ! j = map (\<lambda>j. Some (spec_K2 c j)) [0..<nat (n c)] ! j"
    using assms by (simp add: nth_K2 spec_K2_def spec_k_def)
qed

lemma eps_closed:
  assumes "tau c \<noteq> 0" and "u c \<noteq> 0" and "Lx c \<noteq> 0"
  shows "eps c = Inr (map (\<lambda>j. Some (spec_eps c j)) [0..<nat (n c)])"
proof -
  from assms(1) obtain ev where ev: "eps c = Inr ev"
    using eps_returns by blast
  have "ev = map (\<lambda>j. Some (spec_eps c j)) [0..<nat (n c)]"
  proof (rule nth_equalityI)
    show "length ev = length (map (\<lambda>j. Some (spec_eps c j)) [0..<nat (n c)])"
      using length_eps [OF ev] by simp
    fix j assume "j < length ev"
    then have j: "j < nat (n c)" using length_eps [OF ev] by simp
    show "ev ! j = map (\<lambda>j. Some (spec_eps c j)) [0..<nat (n c)] ! j"
    proof (cases "j = 0")
      case True
      then show ?thesis using j nth_eps_0 [OF ev] by (simp add: spec_eps_def)
    next
      case False
      then have "1 \<le> j" by simp
      from nth_eps [OF assms this j ev] show ?thesis
        using j False by (simp add: spec_eps_def spec_K2_def spec_k_def)
    qed
  qed
  with ev show ?thesis by simp
qed

lemma Ks2_finite: "u c \<noteq> 0 \<Longrightarrow> Ks2 c = Some (beta c / u c)"
  by (simp add: Ks2_def fdiv_def)

lemma denom_closed:
  "u c \<noteq> 0 \<Longrightarrow> denom c (Some (spec_K2 c j)) (Some (spec_eps c j)) = Some (spec_denom c j)"
  by (simp add: denom_def Ks2_finite spec_denom_def)

lemma H_nonzero: "H \<noteq> 0"
  by (simp add: H_def)

lemma spec_K2_pos:
  assumes "Lx c \<noteq> 0" and "1 \<le> j"
  shows "0 < spec_K2 c j"
proof -
  have "spec_k c j \<noteq> 0" using assms by (simp add: spec_k_def)
  then have "0 < (spec_k c j)\<^sup>2" by simp
  moreover have "0 \<le> (m c)\<^sup>2" by simp
  ultimately show ?thesis unfolding spec_K2_def by linarith
qed

lemma spec_eps_nonzero:
  assumes "tau c \<noteq> 0" and "u c \<noteq> 0" and "Lx c \<noteq> 0" and "1 \<le> j"
  shows "spec_eps c j \<noteq> 0"
proof -
  have "spec_k c j \<noteq> 0" using assms by (simp add: spec_k_def)
  moreover have "spec_K2 c j \<noteq> 0" using spec_K2_pos [OF assms(3,4)] by simp
  ultimately show ?thesis using assms by (simp add: spec_eps_def)
qed

lemma Im_spec_denom: "Im (spec_denom c j) = - (H * spec_eps c j)"
  by (simp add: spec_denom_def)

lemma Re_spec_denom: "Re (spec_denom c j) = H * (spec_K2 c j - beta c / u c)"
  by (simp add: spec_denom_def)

lemma spec_denom_nonzero:
  assumes "tau c \<noteq> 0" and "u c \<noteq> 0" and "Lx c \<noteq> 0" and "1 \<le> j"
  shows "spec_denom c j \<noteq> 0"
proof
  assume "spec_denom c j = 0"
  then have "Im (spec_denom c j) = 0" by simp
  then show False
    using spec_eps_nonzero [OF assms] H_nonzero by (simp add: Im_spec_denom)
qed

lemma spec_denom_0: "spec_denom c 0 = of_real (H * ((m c)\<^sup>2 - beta c / u c))"
  by (simp add: spec_denom_def spec_K2_def spec_k_def spec_eps_def)

lemma spec_denom_0_nonzero: "(m c)\<^sup>2 \<noteq> beta c / u c \<Longrightarrow> spec_denom c 0 \<noteq> 0"
proof -
  assume "(m c)\<^sup>2 \<noteq> beta c / u c"
  then have "H * ((m c)\<^sup>2 - beta c / u c) \<noteq> 0"
    using H_nonzero by simp
  then show ?thesis
    unfolding spec_denom_0 by (simp only: of_real_eq_0_iff not_False_eq_True)
qed

lemma those_map_Some: "those (map (\<lambda>j. Some (f j)) js) = Some (map f js)"
  by (induction js) simp_all

lemma sh_closed:
  assumes "h \<noteq> []"
  shows "sh h = Inr ((map (fft_entry (map complex_of_real h)) [0..<length h])[0 := 0])"
  using assms by (simp add: sh_def fft_def)

lemma length_sh: "sh h = Inr s \<Longrightarrow> length s = length h"
  by (auto simp: sh_def fft_def split: if_splits)

lemma sh_0: "sh h = Inr s \<Longrightarrow> s ! 0 = 0"
  by (auto simp: sh_def fft_def split: if_splits)

lemma spsi_general:
  assumes "tau c \<noteq> 0" and "u c \<noteq> 0" and "Lx c \<noteq> 0"
    and "sh h = Inr s" and "length h = nat (n c)"
  shows "spsi c h =
           Inr (map (\<lambda>j. cdiv (of_real (f0 c) * s ! j) (spec_denom c j)) [0..<nat (n c)])"
proof -
  let ?N = "nat (n c)"
  let ?K = "map (\<lambda>j. Some (spec_K2 c j)) [0..<?N]"
  let ?e = "map (\<lambda>j. Some (spec_eps c j)) [0..<?N]"
  have len: "length s = ?N" using length_sh [OF assms(4)] assms(5) by simp
  have b: "broadcast s (zip ?K ?e) = Inr (zip s (zip ?K ?e))"
    using len by (simp add: broadcast_def)
  have "map (\<lambda>(shj, K2j, epsj). spsi_entry c shj K2j epsj) (zip s (zip ?K ?e)) =
        map (\<lambda>j. cdiv (of_real (f0 c) * s ! j) (spec_denom c j)) [0..<?N]"
  proof (rule nth_equalityI)
    show "length (map (\<lambda>(shj, K2j, epsj). spsi_entry c shj K2j epsj) (zip s (zip ?K ?e))) =
          length (map (\<lambda>j. cdiv (of_real (f0 c) * s ! j) (spec_denom c j)) [0..<?N])"
      using len by simp
    fix j assume "j < length (map (\<lambda>(shj, K2j, epsj). spsi_entry c shj K2j epsj) (zip s (zip ?K ?e)))"
    then have j: "j < ?N" using len by simp
    then show "map (\<lambda>(shj, K2j, epsj). spsi_entry c shj K2j epsj) (zip s (zip ?K ?e)) ! j =
               map (\<lambda>j. cdiv (of_real (f0 c) * s ! j) (spec_denom c j)) [0..<?N] ! j"
      using len assms(2) by (simp add: spsi_entry_def denom_closed)
  qed
  then show ?thesis
    using assms b by (simp add: spsi_def eps_closed K2_closed)
qed

lemma spsi_closed:
  assumes "tau c \<noteq> 0" and "u c \<noteq> 0" and "Lx c \<noteq> 0" and "(m c)\<^sup>2 \<noteq> beta c / u c"
    and "sh h = Inr s" and "length h = nat (n c)"
  shows "spsi c h = Inr (map (\<lambda>j. Some (spec_spsi c s j)) [0..<nat (n c)])"
proof -
  have "cdiv (of_real (f0 c) * s ! j) (spec_denom c j) = Some (spec_spsi c s j)" for j
  proof -
    have "spec_denom c j \<noteq> 0"
      using spec_denom_0_nonzero [OF assms(4)] spec_denom_nonzero [OF assms(1,2,3), of j]
      by (cases "j = 0") auto
    then show ?thesis by (simp add: cdiv_def spec_spsi_def)
  qed
  then show ?thesis
    using spsi_general [OF assms(1,2,3,5,6)] by simp
qed

lemma psi_closed:
  assumes "tau c \<noteq> 0" and "u c \<noteq> 0" and "Lx c \<noteq> 0" and "(m c)\<^sup>2 \<noteq> beta c / u c"
    and "sh h = Inr s" and "length h = nat (n c)"
  shows "psi c h =
           Inr (Some (map (\<lambda>l. Re (ifft_entry (map (spec_spsi c s) [0..<nat (n c)]) l))
                        [0..<nat (n c)]))"
proof -
  have "h \<noteq> []" using assms(5) by (auto simp: sh_def fft_def)
  then have N: "0 < nat (n c)" using assms(6) by (cases h) auto
  then have ne: "[0..<nat (n c)] \<noteq> []" by simp
  show ?thesis
    unfolding psi_def spsi_closed [OF assms]
    using ne N by (simp add: those_map_Some ifft_def comp_def)
qed

subsection \<open>Discrete Fourier transforms\<close>

lemma cis_step: "cis (2 * pi * of_int d * real l / real N) = cis (2 * pi * of_int d / real N) ^ l"
  by (simp add: DeMoivre mult_ac)

lemma unit_root_neq_1:
  assumes "0 < N" and "\<not> int N dvd d"
  shows "cis (2 * pi * of_int d / real N) \<noteq> 1"
proof
  assume "cis (2 * pi * of_int d / real N) = 1"
  then have "cos (2 * pi * of_int d / real N) = 1"
    by (simp add: complex_eq_iff)
  then obtain q :: int where q: "2 * pi * of_int d / real N = of_int q * 2 * pi"
    unfolding cos_one_2pi_int by blast
  then have "of_int d = (of_int q * real N)"
    using assms(1) by (simp add: field_simps)
  then have "(of_int d :: real) = of_int (q * int N)" by simp
  then have "d = q * int N" by (simp only: of_int_eq_iff)
  with assms(2) show False by simp
qed

lemma unit_root_power: "0 < N \<Longrightarrow> cis (2 * pi * of_int d / real N) ^ N = 1"
proof -
  assume "0 < N"
  then have "cis (2 * pi * of_int d / real N) ^ N = cis (2 * pi * of_int d)"
    by (simp add: DeMoivre)
  also have "\<dots> = 1" by (rule cis_multiple_2pi) simp
  finally show ?thesis .
qed

lemma unit_root_sum:
  assumes "0 < N" and "\<not> int N dvd d"
  shows "(\<Sum>l<N. cis (2 * pi * of_int d * real l / real N)) = 0"
proof -
  let ?w = "cis (2 * pi * of_int d / real N)"
  have "(\<Sum>l<N. cis (2 * pi * of_int d * real l / real N)) = (\<Sum>l<N. ?w ^ l)"
    by (simp only: cis_step)
  also have "\<dots> = (?w ^ N - 1) / (?w - 1)"
    using unit_root_neq_1 [OF assms] by (rule geometric_sum)
  also have "\<dots> = 0"
    using unit_root_power [OF assms(1)] by simp
  finally show ?thesis .
qed

lemma unit_root_sum_nat:
  assumes "j < N"
  shows "(\<Sum>l<N. cis (2 * pi * real j * real l / real N)) = (if j = 0 then of_nat N else 0)"
proof (cases "j = 0")
  case True
  then show ?thesis by simp
next
  case False
  with assms have "\<not> int N dvd int j"
    by (auto dest: zdvd_imp_le)
  from unit_root_sum [OF _ this] assms False show ?thesis by simp
qed

lemma sum_ifft_entries:
  assumes "v \<noteq> []"
  shows "(\<Sum>l<length v. ifft_entry v l) = v ! 0"
proof -
  let ?N = "length v"
  have N: "0 < ?N" using assms by simp
  have "(\<Sum>l<?N. ifft_entry v l) =
        (\<Sum>l<?N. \<Sum>j<?N. v ! j * cis (2 * pi * real j * real l / real ?N)) / of_nat ?N"
    by (simp add: ifft_entry_def sum_divide_distrib)
  also have "(\<Sum>l<?N. \<Sum>j<?N. v ! j * cis (2 * pi * real j * real l / real ?N)) =
             (\<Sum>j<?N. \<Sum>l<?N. v ! j * cis (2 * pi * real j * real l / real ?N))"
    by (rule sum.swap)
  also have "\<dots> = (\<Sum>j<?N. v ! j * (if j = 0 then of_nat ?N else 0))"
    by (rule sum.cong) (simp_all add: sum_distrib_left [symmetric] unit_root_sum_nat)
  also have "\<dots> = v ! 0 * of_nat ?N"
    using N by (simp add: sum.delta' if_distrib [of "\<lambda>t. _ * t"] cong: if_cong)
  finally show ?thesis using N by simp
qed

lemma sum_list_upt: "sum_list (map f [0..<N]) = (\<Sum>l<N. f l)"
  by (simp add: interv_sum_list_conv_sum_set_nat atLeast0LessThan)

lemma fft_entry_mirror:
  assumes "1 \<le> j" and "j < length h"
  shows "fft_entry (map complex_of_real h) (length h - j) = cnj (fft_entry (map complex_of_real h) j)"
proof -
  let ?N = "length h"
  have N: "0 < ?N" using assms by (cases h) simp_all
  have t: "cis (- (2 * pi * real (?N - j) * real l / real ?N)) = cnj (cis (- (2 * pi * real j * real l / real ?N)))" for l
  proof -
    have "- (2 * pi * real (?N - j) * real l / real ?N) = 2 * pi * real j * real l / real ?N + 2 * pi * of_int (- int l)"
      using assms N by (simp add: of_nat_diff field_simps)
    then have "cis (- (2 * pi * real (?N - j) * real l / real ?N)) = cis (2 * pi * real j * real l / real ?N) * cis (2 * pi * of_int (- int l))"
      by (simp only: cis_mult)
    also have "cis (2 * pi * of_int (- int l)) = 1" by (rule cis_multiple_2pi) simp
    finally show ?thesis by (simp add: cis_cnj)
  qed
  show ?thesis
    unfolding fft_entry_def
    by (simp add: t cnj_sum)
qed
lemma unit_root_sum_diff:
  assumes "i < N" and "j < N"
  shows "(\<Sum>l<N. cis (2 * pi * real i * real l / real N) * cis (- (2 * pi * real j * real l / real N)))
           = (if i = j then of_nat N else 0)"
proof (cases "i = j")
  case True
  then show ?thesis by (simp add: cis_mult)
next
  case False
  have N: "0 < N" using assms by simp
  have "\<bar>int i - int j\<bar> < int N" "int i - int j \<noteq> 0"
    using assms False by auto
  then have "\<not> int N dvd \<bar>int i - int j\<bar>"
    by (intro zdvd_not_zless) simp_all
  then have nd: "\<not> int N dvd (int i - int j)"
    by simp
  have "cis (2 * pi * real i * real l / real N) * cis (- (2 * pi * real j * real l / real N)) =
        cis (2 * pi * of_int (int i - int j) * real l / real N)" for l
    by (simp add: cis_mult algebra_simps diff_divide_distrib)
  then show ?thesis
    using unit_root_sum [OF N nd] False by simp
qed

lemma fft_ifft_entry:
  assumes "j < length v"
  shows "fft_entry (map (ifft_entry v) [0..<length v]) j = v ! j"
proof -
  let ?N = "length v"
  let ?a = "\<lambda>i l. cis (2 * pi * real i * real l / real ?N)"
  let ?b = "\<lambda>l. cis (- (2 * pi * real j * real l / real ?N))"
  have N: "0 < ?N" using assms by (cases v) simp_all
  have "fft_entry (map (ifft_entry v) [0..<?N]) j = (\<Sum>l<?N. ifft_entry v l * ?b l)"
    by (simp add: fft_entry_def)
  also have "\<dots> = (\<Sum>l<?N. \<Sum>i<?N. v ! i * (?a i l * ?b l)) / of_nat ?N"
    by (simp add: ifft_entry_def sum_divide_distrib sum_distrib_right mult.assoc)
  also have "(\<Sum>l<?N. \<Sum>i<?N. v ! i * (?a i l * ?b l)) = (\<Sum>i<?N. \<Sum>l<?N. v ! i * (?a i l * ?b l))"
    by (rule sum.swap)
  also have "\<dots> = (\<Sum>i<?N. v ! i * (if i = j then of_nat ?N else 0))"
  proof (rule sum.cong)
    fix i assume "i \<in> {..<?N}"
    then have "i < ?N" by simp
    from unit_root_sum_diff [OF this assms]
    show "(\<Sum>l<?N. v ! i * (?a i l * ?b l)) = v ! i * (if i = j then of_nat ?N else 0)"
      by (simp only: sum_distrib_left [symmetric])
  qed simp
  also have "\<dots> = v ! j * of_nat ?N"
    using assms by (simp add: sum.delta if_distrib [of "\<lambda>t. _ * t"] cong: if_cong)
  finally show ?thesis using N by simp
qed

lemma real_ifft_mirror:
  assumes "\<forall>l<length v. Im (ifft_entry v l) = 0" and "1 \<le> j" and "j < length v"
  shows "v ! (length v - j) = cnj (v ! j)"
proof -
  let ?N = "length v"
  let ?p = "map (\<lambda>l. Re (ifft_entry v l)) [0..<?N]"
  have e: "map complex_of_real ?p = map (ifft_entry v) [0..<?N]"
    by (rule nth_equalityI) (use assms(1) in \<open>simp_all add: complex_eq_iff\<close>)
  have len: "length ?p = ?N" by simp
  have "fft_entry (map complex_of_real ?p) (length ?p - j) =
        cnj (fft_entry (map complex_of_real ?p) j)"
    by (rule fft_entry_mirror) (use assms(2,3) in simp_all)
  then have "fft_entry (map (ifft_entry v) [0..<?N]) (?N - j) =
             cnj (fft_entry (map (ifft_entry v) [0..<?N]) j)"
    unfolding e len .
  moreover have "?N - j < ?N" using assms by simp
  ultimately show ?thesis
    using fft_ifft_entry [of "?N - j" v] fft_ifft_entry [OF assms(3)] by simp
qed

lemma sh_mirror:
  assumes "sh h = Inr s" and "1 \<le> j" and "j < length h"
  shows "s ! (length h - j) = cnj (s ! j)"
proof -
  have ne: "h \<noteq> []" using assms(3) by (cases h) simp_all
  have s: "s = (map (fft_entry (map complex_of_real h)) [0..<length h])[0 := 0]"
    using assms(1) sh_closed [OF ne] by simp
  have "length h - j \<noteq> 0" "j \<noteq> 0" "length h - j < length h"
    using assms by simp_all
  then show ?thesis
    unfolding s using assms(3) fft_entry_mirror [OF assms(2,3)] by simp
qed

lemma spec_spsi_not_mirror:
  assumes "tau c \<noteq> 0" and "u c \<noteq> 0" and "Lx c \<noteq> 0" and "f0 c \<noteq> 0"
    and "2 \<le> N" and "s ! (N - 1) = cnj (s ! 1)" and "s ! 1 \<noteq> 0"
  shows "spec_spsi c s (N - 1) \<noteq> cnj (spec_spsi c s 1)"
proof
  assume eq: "spec_spsi c s (N - 1) = cnj (spec_spsi c s 1)"
  let ?z = "of_real (f0 c) * cnj (s ! 1)"
  have z: "?z \<noteq> 0" using assms(4,7) by simp
  have N1: "1 \<le> N - 1" using assms(5) by simp
  have d1: "spec_denom c 1 \<noteq> 0"
    using spec_denom_nonzero [OF assms(1,2,3), of 1] by simp
  have dN: "spec_denom c (N - 1) \<noteq> 0"
    using spec_denom_nonzero [OF assms(1,2,3) N1] .
  from eq have "?z / spec_denom c (N - 1) = ?z / cnj (spec_denom c 1)"
    unfolding spec_spsi_def assms(6) by simp
  then have D: "spec_denom c (N - 1) = cnj (spec_denom c 1)"
    using z d1 dN by (simp add: field_simps)
  from D have "Re (spec_denom c (N - 1)) = Re (spec_denom c 1)" by simp
  then have "spec_K2 c (N - 1) = spec_K2 c 1"
    using H_nonzero by (simp add: Re_spec_denom)
  then have "(spec_k c (N - 1))\<^sup>2 = (spec_k c 1)\<^sup>2"
    by (simp add: spec_K2_def)
  then have "(real (N - 1))\<^sup>2 * (2 * pi / Lx c)\<^sup>2 = 1 * (2 * pi / Lx c)\<^sup>2"
    by (simp add: spec_k_def power_mult_distrib power_divide mult.commute)
  moreover have "(2 * pi / Lx c)\<^sup>2 \<noteq> 0" using assms(3) by simp
  ultimately have "(real (N - 1))\<^sup>2 = 1" by (metis mult_right_cancel)
  then have "real (N - 1) = 1" by (simp add: power2_eq_1_iff)
  then have N2: "N - 1 = 1" by simp
  from D have "Im (spec_denom c (N - 1)) = - Im (spec_denom c 1)" by simp
  then have "spec_eps c 1 = 0"
    using H_nonzero unfolding N2 by (simp add: Im_spec_denom)
  then show False
    using spec_eps_nonzero [OF assms(1,2,3), of 1] by simp
qed

subsection \<open>Facts about the example inputs\<close>

lemma config_fields [simp]:
  "tau default_config = 430820" "u default_config = 25" "n default_config = 480"
  "latd default_config = 45" "m default_config = 2 * pi / 8000000"
  by (simp_all add: default_config_def)

lemma beta_default: "beta default_config = 2 * omega * (sqrt 2 / 2) / a"
proof -
  have "latr default_config = pi / 4"
    by (simp add: latr_def default_config_def)
  then have "cos (latr default_config) = sqrt 2 / 2"
    by (simp only: cos_45)
  then show ?thesis
    by (simp add: beta_def)
qed

lemma beta_default_pos: "0 < beta default_config"
  by (simp add: beta_default omega_def a_def)

lemma f0_default: "f0 default_config = 2 * omega * (sqrt 2 / 2)"
proof -
  have "latr default_config = pi / 4"
    by (simp add: latr_def default_config_def)
  then have "sin (latr default_config) = sqrt 2 / 2"
    by (simp only: sin_45)
  then show ?thesis
    by (simp only: f0_def)
qed

lemma f0_default_pos: "0 < f0 default_config"
  unfolding f0_default by (simp add: omega_def)

lemma sqrt2_gt: "14 / 10 < sqrt 2"
  by (rule real_less_rsqrt) (simp add: power2_eq_square)

lemma default_not_resonant: "(m default_config)\<^sup>2 < beta default_config / u default_config"
proof -
  have m2: "(m default_config)\<^sup>2 = pi * (pi / 16000000000000)"
    by (simp add: power2_eq_square)
  have b: "beta default_config / u default_config = pi * (2 * sqrt 2 / 13723771100000)"
    unfolding beta_default by (simp add: omega_def a_def)
  have "pi / 16000000000000 < 2 * sqrt 2 / 13723771100000"
    using pi_lt_32 sqrt2_gt by simp
  then have "pi * (pi / 16000000000000) < pi * (2 * sqrt 2 / 13723771100000)"
    by (rule mult_strict_left_mono) simp
  then show ?thesis
    unfolding m2 b .
qed

lemma sh_pair: "sh [1, 0] = Inr [0, 1]"
  by (simp add: sh_def fft_def fft_entry_def upt_rec [of _ "numeral _"] upt_rec [of _ "Suc _"]
      lessThan_Suc numeral_2_eq_2)

lemma pair_fields [simp]:
  "tau pair_config = 430820" "u pair_config = 25" "n pair_config = 2"
  "Lx pair_config = Lx default_config" "beta pair_config = beta default_config"
  "f0 pair_config = f0 default_config" "m pair_config = m default_config"
  by (simp_all add: pair_config_def Lx_def beta_def f0_def latr_def)

lemma resonant_fields [simp]:
  "tau resonant_config = 430820" "u resonant_config = beta default_config"
  "n resonant_config = 2" "m resonant_config = 1"
  "Lx resonant_config = Lx default_config" "beta resonant_config = beta default_config"
  by (simp_all add: resonant_config_def Lx_def beta_def latr_def)

lemma beta_equator: "beta (default_config\<lparr>latd := 0\<rparr>) = 2 * omega / a"
  by (simp add: beta_def latr_def)

lemma equator_fields [simp]:
  "tau equator_resonant_config = 430820" "u equator_resonant_config = 2 * omega / a"
  "n equator_resonant_config = 2" "m equator_resonant_config = 1"
  "latd equator_resonant_config = 0" "beta equator_resonant_config = 2 * omega / a"
  "Lx equator_resonant_config = 2 * pi * a" "f0 equator_resonant_config = 0"
  by (simp_all add: equator_resonant_config_def beta_equator Lx_def beta_def f0_def latr_def)

lemma omega_a_pos: "0 < omega" "0 < a"
  by (simp_all add: omega_def a_def)

subsection \<open>Zero wind\<close>

text \<open>
  C7, as the code has it. With \<open>u = 0\<close> and a non-zero damping time the parameter
  derivation raises nothing: \<open>Ks2 = beta / u\<close> is a non-finite value, and so is every
  \<open>eps[j]\<close> with \<open>j \<ge> 1\<close>, while \<open>eps[0] = 0\<close>.
\<close>

theorem zero_wind_silent:
  assumes "u c = 0" and "tau c \<noteq> 0"
  shows "Ks2 c = None \<and>
         (\<exists>ev. eps c = Inr ev \<and> length ev = nat (n c) \<and>
            (0 < n c \<longrightarrow> ev ! 0 = Some 0) \<and>
            (\<forall>j. 1 \<le> j \<and> j < nat (n c) \<longrightarrow> ev ! j = None))"
proof -
  from assms(2) obtain ev where ev: "eps c = Inr ev"
    using eps_returns by blast
  have "ev ! j = None" if "1 \<le> j" "j < nat (n c)" for j
    using that ev assms
    by (auto simp: eps_def r_def nth_append length_ns length_K2 fdiv_def split: Option.bind_split)
  then show ?thesis
    using ev length_eps [OF ev] nth_eps_0 [OF ev] assms by (auto simp: Ks2_def fdiv_def)
qed

theorem zero_wind_silent_witness:
  "u calm_config = 0 \<and> tau calm_config \<noteq> 0 \<and> Ks2 calm_config = None \<and>
   (\<exists>ev. eps calm_config = Inr ev \<and> length ev = 2 \<and> ev ! 0 = Some 0 \<and> ev ! 1 = None)"
proof -
  have h: "u calm_config = 0" "tau calm_config \<noteq> 0"
    by (simp_all add: calm_config_def)
  have n2: "n calm_config = 2"
    by (simp add: calm_config_def)
  from zero_wind_silent [OF h] show ?thesis
    using h unfolding n2 by auto
qed

text \<open>
  C7, as the claim states it, fails: without wind the derivation of \<open>Ks2\<close> and \<open>eps\<close>
  returns, with non-finite entries, and no error is raised.
\<close>

theorem zero_wind_counterexample:
  "u calm_config = 0 \<and> Ks2 calm_config = None \<and> eps calm_config = Inr [Some 0, None]"
  by (simp add: calm_config_def Ks2_def eps_def r_def default_config_def ns_def K2_def k_def
      fdiv_def upt_rec [of _ "numeral _"] upt_rec [of _ "Suc _"])

subsection \<open>The latitude band of the real-world topography\<close>

lemma argmin_band:
  "argmin (map (\<lambda>y. \<bar>y - latd default_config\<bar>) (latitude band_dataset)) = Inr 5"
  by (simp add: argmin_def band_dataset_def default_config_def
      upt_rec [of _ "numeral _"] upt_rec [of _ "Suc _"])

text \<open>
  C9. On the eleven-row file the nearest row to latitude 45 has index 5. The slice
  \<^verbatim>\<open>iy-5:iy+5\<close> averages the ten rows 0 to 9 and leaves out row 10, which is five rows
  above: the code returns height 0 where the band of five rows on both sides gives
  height 1.
\<close>

theorem world_topography_band:
  "world_topography band_dataset default_config = Inr (Some [0]) \<and>
   spec_world_topography band_dataset default_config = Inr (Some [1]) \<and>
   py_slice [0, 1, 2, 3, 4, 5, 6, 7, 8, 9, 10 :: nat] (5 - 5) (5 + 5)
     = [0, 1, 2, 3, 4, 5, 6, 7, 8, 9]"
proof -
  have "world_topography band_dataset default_config = Inr (Some [0])"
    unfolding world_topography_def argmin_band
    by (simp add: band_dataset_def py_slice_def mean_axis0_def g_def)
  moreover have "spec_world_topography band_dataset default_config = Inr (Some [1])"
    unfolding spec_world_topography_def argmin_band
    by (simp add: band_dataset_def mean_axis0_def g_def
        upt_rec [of _ "numeral _"] upt_rec [of _ "Suc _"])
  moreover have "py_slice [0, 1, 2, 3, 4, 5, 6, 7, 8, 9, 10 :: nat] (5 - 5) (5 + 5)
     = [0, 1, 2, 3, 4, 5, 6, 7, 8, 9]"
    by (simp add: py_slice_def)
  ultimately show ?thesis by blast
qed

subsection \<open>The response field\<close>

lemma sh_returns: "h \<noteq> [] \<Longrightarrow> \<exists>s. sh h = Inr s"
  by (simp add: sh_closed)

lemma nonempty_of_length: "length h = nat (n c) \<Longrightarrow> 0 < n c \<Longrightarrow> h \<noteq> []"
  by (cases h) simp_all

lemma spec_spsi_0: "s ! 0 = 0 \<Longrightarrow> spec_spsi c s 0 = 0"
  by (simp add: spec_spsi_def)

text \<open>
  C10, as the code has it. For every topography of length \<open>n \<ge> 1\<close>, with a non-zero
  wind, damping time and circle length and with \<open>m\<^sup>2 \<noteq> Ks2\<close>, the response field has
  \<open>n\<close> values whose sum in exact arithmetic is zero: it is the real part of the zeroed
  coefficient \<open>spsi[0]\<close>.
\<close>

theorem psi_zero_mean:
  assumes "tau c \<noteq> 0" and "u c \<noteq> 0" and "Lx c \<noteq> 0" and "(m c)\<^sup>2 \<noteq> beta c / u c"
    and "length h = nat (n c)" and "0 < n c"
  shows "\<exists>ps. psi c h = Inr (Some ps) \<and> length ps = nat (n c) \<and> sum_list ps = 0"
proof -
  let ?N = "nat (n c)"
  from assms(5,6) have ne: "h \<noteq> []" by (rule nonempty_of_length)
  then obtain s where s: "sh h = Inr s" using sh_returns by blast
  let ?v = "map (spec_spsi c s) [0..<?N]"
  let ?ps = "map (\<lambda>l. Re (ifft_entry ?v l)) [0..<?N]"
  have N: "0 < ?N" using assms(6) by simp
  have v: "?v \<noteq> []" "length ?v = ?N" using N by simp_all
  have "sum_list ?ps = (\<Sum>l<?N. Re (ifft_entry ?v l))"
    by (rule sum_list_upt)
  also have "\<dots> = Re (\<Sum>l<length ?v. ifft_entry ?v l)"
    by (simp only: Re_sum v(2))
  also have "\<dots> = Re (?v ! 0)"
    by (simp only: sum_ifft_entries [OF v(1)])
  also have "\<dots> = 0"
    using N sh_0 [OF s] by (simp add: spec_spsi_0)
  finally have "sum_list ?ps = 0" .
  moreover have "psi c h = Inr (Some ?ps)"
    by (rule psi_closed [OF assms(1,2,3,4) s assms(5)])
  moreover have "length ?ps = ?N" by simp
  ultimately show ?thesis by blast
qed

theorem psi_zero_mean_witness:
  "tau pair_config \<noteq> 0 \<and> u pair_config \<noteq> 0 \<and> Lx pair_config \<noteq> 0 \<and>
   (m pair_config)\<^sup>2 \<noteq> beta pair_config / u pair_config \<and>
   length [1, 0 :: real] = nat (n pair_config) \<and> 0 < n pair_config \<and>
   (\<exists>ps. psi pair_config [1, 0] = Inr (Some ps) \<and> length ps = 2 \<and> sum_list ps = 0)"
proof -
  have h: "tau pair_config \<noteq> 0" "u pair_config \<noteq> 0" "Lx pair_config \<noteq> 0"
    "(m pair_config)\<^sup>2 \<noteq> beta pair_config / u pair_config"
    "length [1, 0 :: real] = nat (n pair_config)" "0 < n pair_config"
    using Lx_default_pos less_imp_neq [OF default_not_resonant] by simp_all
  from psi_zero_mean [OF h] have
    "\<exists>ps. psi pair_config [1, 0] = Inr (Some ps) \<and> length ps = 2 \<and> sum_list ps = 0"
    by simp
  with h show ?thesis by blast
qed

lemma spsi_entry_no_Ks2: "Ks2 c = None \<Longrightarrow> spsi_entry c shj K2j epsj = None"
  by (cases K2j) (simp_all add: spsi_entry_def denom_def)

lemma psi_no_Ks2:
  assumes "Ks2 c = None" and "tau c \<noteq> 0" and "h \<noteq> []" and "length h = nat (n c)"
  shows "psi c h = Inr None"
proof -
  from assms(2) obtain ev where ev: "eps c = Inr ev" using eps_returns by blast
  from assms(3) obtain s where s: "sh h = Inr s" using sh_returns by blast
  let ?ts = "zip s (zip (K2 c) ev)"
  have len: "length s = nat (n c)" using length_sh [OF s] assms(4) by simp
  have N: "0 < nat (n c)" using assms(3,4) by (cases h) auto
  have b: "broadcast s (zip (K2 c) ev) = Inr ?ts"
    using len length_eps [OF ev] by (simp add: broadcast_def length_K2)
  have m: "map (\<lambda>(shj, K2j, epsj). spsi_entry c shj K2j epsj) ?ts = replicate (nat (n c)) None"
    using len length_eps [OF ev]
    by (simp add: spsi_entry_no_Ks2 [OF assms(1)] split_def map_replicate_const length_K2)
  have sp: "spsi c h = Inr (replicate (nat (n c)) None)"
    by (simp add: spsi_def ev s b m)
  obtain j where j: "nat (n c) = Suc j" using N by (cases "nat (n c)") auto
  show ?thesis
    unfolding psi_def sp j by simp
qed

lemma calm_fields [simp]:
  "tau calm_config = 430820" "u calm_config = 0" "n calm_config = 2"
  "m calm_config = m default_config"
  by (simp_all add: calm_config_def)

text \<open>
  C10, as the claim states it, fails: without wind \<open>Ks2\<close> is not finite, so it differs
  from \<open>m\<^sup>2\<close>, and the response field of the topography \<open>[1, 0]\<close> is not a field of
  finite numbers with sum zero.
\<close>

theorem zero_mean_counterexample:
  "length [1, 0 :: real] = nat (n calm_config) \<and>
   Ks2 calm_config \<noteq> Some ((m calm_config)\<^sup>2) \<and>
   psi calm_config [1, 0] = Inr None"
proof -
  have K: "Ks2 calm_config = None"
    by (simp add: Ks2_def fdiv_def)
  have "psi calm_config [1, 0] = Inr None"
    by (rule psi_no_Ks2 [OF K]) simp_all
  with K show ?thesis by simp
qed

lemma ifft_entry_zero: "ifft_entry (map (\<lambda>j. 0) js) l = 0"
  by (simp add: ifft_entry_def)

lemma latitude_0: "latd c = 0 \<Longrightarrow> f0 c = 0 \<and> Lx c = 2 * pi * a \<and> beta c = 2 * omega / a"
  by (simp add: f0_def Lx_def beta_def latr_def)

text \<open>
  C5, as the code has it. At latitude 0 the Coriolis parameter is 0 and, with
  \<open>m\<^sup>2 \<noteq> Ks2\<close> (and a non-zero wind and damping time), the response field is zero at
  every grid point, for every topography of length \<open>n\<close>.
\<close>

theorem equator_zero_response:
  assumes "latd c = 0" and "tau c \<noteq> 0" and "u c \<noteq> 0" and "(m c)\<^sup>2 \<noteq> beta c / u c"
    and "length h = nat (n c)" and "0 < n c"
  shows "f0 c = 0 \<and> psi c h = Inr (Some (replicate (nat (n c)) 0))"
proof -
  let ?N = "nat (n c)"
  have f: "f0 c = 0" and L: "Lx c \<noteq> 0"
    using latitude_0 [OF assms(1)] by (simp_all add: a_def)
  from assms(5,6) have ne: "h \<noteq> []" by (rule nonempty_of_length)
  then obtain s where s: "sh h = Inr s" using sh_returns by blast
  have z: "map (spec_spsi c s) [0..<?N] = map (\<lambda>j. 0) [0..<?N]"
    by (simp add: spec_spsi_def f)
  have "map (\<lambda>l. Re (ifft_entry (map (spec_spsi c s) [0..<?N]) l)) [0..<?N] = replicate ?N 0"
    unfolding z ifft_entry_zero by (simp add: map_replicate_const)
  then have "psi c h = Inr (Some (replicate ?N 0))"
    using psi_closed [OF assms(2,3) L assms(4) s assms(5)] by simp
  with f show ?thesis by simp
qed

theorem equator_zero_response_witness:
  "latd (pair_config\<lparr>latd := 0\<rparr>) = 0 \<and> tau (pair_config\<lparr>latd := 0\<rparr>) \<noteq> 0 \<and>
   u (pair_config\<lparr>latd := 0\<rparr>) \<noteq> 0 \<and>
   (m (pair_config\<lparr>latd := 0\<rparr>))\<^sup>2
      \<noteq> beta (pair_config\<lparr>latd := 0\<rparr>) / u (pair_config\<lparr>latd := 0\<rparr>) \<and>
   length [1, 0 :: real] = nat (n (pair_config\<lparr>latd := 0\<rparr>)) \<and>
   0 < n (pair_config\<lparr>latd := 0\<rparr>) \<and>
   f0 (pair_config\<lparr>latd := 0\<rparr>) = 0 \<and>
   psi (pair_config\<lparr>latd := 0\<rparr>) [1, 0] = Inr (Some [0, 0])"
proof -
  let ?c = "pair_config\<lparr>latd := 0\<rparr>"
  have b: "beta ?c = 2 * omega / a"
    using latitude_0 [of ?c] by simp
  have m2: "(m ?c)\<^sup>2 = pi * (pi / 16000000000000)"
    by (simp add: power2_eq_square)
  have b2: "beta ?c / u ?c = pi * (4 / 13723771100000)"
    unfolding b by (simp add: omega_def a_def)
  have "pi / 16000000000000 < 4 / 13723771100000"
    using pi_less_4 by simp
  then have "pi * (pi / 16000000000000) < pi * (4 / 13723771100000)"
    by (rule mult_strict_left_mono) simp
  then have "(m ?c)\<^sup>2 < beta ?c / u ?c"
    unfolding m2 b2 .
  then have r: "(m ?c)\<^sup>2 \<noteq> beta ?c / u ?c"
    by (rule less_imp_neq)
  have h: "latd ?c = 0" "tau ?c \<noteq> 0" "u ?c \<noteq> 0"
    "length [1, 0 :: real] = nat (n ?c)" "0 < n ?c"
    by simp_all
  from equator_zero_response [OF h(1,2,3) r h(4,5)]
  have "f0 ?c = 0 \<and> psi ?c [1, 0] = Inr (Some [0, 0])"
    by (simp add: numeral_2_eq_2)
  with h r show ?thesis by blast
qed

lemma spsi_resonant_like:
  assumes "tau c \<noteq> 0" and "u c \<noteq> 0" and "Lx c \<noteq> 0" and "(m c)\<^sup>2 = beta c / u c"
    and "n c = 2"
  shows "spsi c [1, 0] = Inr [None, Some (spec_spsi c [0, 1] 1)]"
proof -
  have d0: "spec_denom c 0 = 0"
    using assms(4) by (simp add: spec_denom_0)
  have d1: "spec_denom c 1 \<noteq> 0"
    using spec_denom_nonzero [OF assms(1,2,3), of 1] by simp
  have "spsi c [1, 0] =
          Inr (map (\<lambda>j. cdiv (of_real (f0 c) * [0, 1] ! j) (spec_denom c j)) [0..<nat (n c)])"
    by (rule spsi_general [OF assms(1,2,3) sh_pair]) (simp add: assms(5))
  also have "[0..<nat (n c)] = [0, 1]"
    by (simp add: assms(5) upt_rec [of _ "numeral _"] upt_rec [of _ "Suc _"] numeral_2_eq_2)
  finally show ?thesis
    using d0 d1 by (simp add: cdiv_def spec_spsi_def)
qed

lemma resonant_valid:
  "tau resonant_config \<noteq> 0" "u resonant_config \<noteq> 0" "Lx resonant_config \<noteq> 0"
  "(m resonant_config)\<^sup>2 = beta resonant_config / u resonant_config"
  using beta_default_pos Lx_default_pos by simp_all

lemma equator_resonant_valid:
  "tau equator_resonant_config \<noteq> 0" "u equator_resonant_config \<noteq> 0"
  "Lx equator_resonant_config \<noteq> 0"
  "(m equator_resonant_config)\<^sup>2 = beta equator_resonant_config / u equator_resonant_config"
  using omega_a_pos by simp_all

text \<open>
  C5, as the claim states it, fails: at latitude 0, with a positive wind for which
  \<open>Ks2 = m\<^sup>2\<close>, the entry 0 of \<open>spsi\<close> is the quotient of 0 by 0 and the response field
  is not the zero field.
\<close>

theorem equator_counterexample:
  "latd equator_resonant_config = 0 \<and> f0 equator_resonant_config = 0 \<and>
   0 < u equator_resonant_config \<and> 0 < tau equator_resonant_config \<and>
   psi equator_resonant_config [1, 0] = Inr None \<and>
   psi equator_resonant_config [1, 0] \<noteq> Inr (Some [0, 0])"
proof -
  have "spsi equator_resonant_config [1, 0]
          = Inr [None, Some (spec_spsi equator_resonant_config [0, 1] 1)]"
    by (rule spsi_resonant_like [OF equator_resonant_valid]) simp
  then have "psi equator_resonant_config [1, 0] = Inr None"
    by (simp add: psi_def)
  then show ?thesis
    using omega_a_pos by simp
qed

subsection \<open>The spectral response\<close>

lemma upt_2: "[0..<2] = [0, 1]"
  by (simp add: upt_rec [of _ "numeral _"] upt_rec [of _ "Suc _"] numeral_2_eq_2)

lemma pair_valid:
  "tau pair_config \<noteq> 0" "u pair_config \<noteq> 0" "Lx pair_config \<noteq> 0"
  "(m pair_config)\<^sup>2 \<noteq> beta pair_config / u pair_config"
  "length [1, 0 :: real] = nat (n pair_config)" "0 < n pair_config"
  using Lx_default_pos less_imp_neq [OF default_not_resonant] by simp_all

text \<open>
  C1, as the code has it. For every topography \<open>h\<close> of length \<open>n\<close>, with finite
  parameters and \<open>m\<^sup>2 \<noteq> Ks2\<close>: \<open>sh\<close> is the transform of \<open>h\<close> with entry 0 set to 0; the
  arrays \<open>K2\<close> and \<open>eps\<close> and the number \<open>Ks2\<close> are finite; every entry of \<open>spsi\<close> is
  \<open>f0 * sh[j] / (H * (K2[j] - Ks2 - i * eps[j]))\<close>, entry 0 being 0; and the result is
  the real part of the inverse transform of \<open>spsi\<close>.
\<close>

theorem transfer_formula:
  assumes "tau c \<noteq> 0" and "u c \<noteq> 0" and "Lx c \<noteq> 0" and "(m c)\<^sup>2 \<noteq> beta c / u c"
    and "length h = nat (n c)" and "0 < n c"
  shows "\<exists>s vs ps.
           sh h = Inr s \<and>
           s = (map (fft_entry (map complex_of_real h)) [0..<nat (n c)])[0 := 0] \<and>
           K2 c = map (\<lambda>j. Some (spec_K2 c j)) [0..<nat (n c)] \<and>
           Ks2 c = Some (beta c / u c) \<and>
           eps c = Inr (map (\<lambda>j. Some (spec_eps c j)) [0..<nat (n c)]) \<and>
           spsi c h = Inr (map Some vs) \<and> length vs = nat (n c) \<and>
           (\<forall>j. j < nat (n c) \<longrightarrow>
              vs ! j = of_real (f0 c) * s ! j
                       / (of_real H * (of_real (spec_K2 c j) - of_real (beta c / u c)
                                        - \<i> * of_real (spec_eps c j)))) \<and>
           vs ! 0 = 0 \<and>
           ifft vs = Inr ps \<and> psi c h = Inr (Some (map Re ps))"
proof -
  let ?N = "nat (n c)"
  from assms(5,6) have ne: "h \<noteq> []" by (rule nonempty_of_length)
  let ?s = "(map (fft_entry (map complex_of_real h)) [0..<?N])[0 := 0]"
  have s: "sh h = Inr ?s"
    using sh_closed [OF ne] assms(5) by simp
  let ?vs = "map (spec_spsi c ?s) [0..<?N]"
  let ?ps = "map (ifft_entry ?vs) [0..<?N]"
  have N: "0 < ?N" using assms(6) by simp
  have sp: "spsi c h = Inr (map Some ?vs)"
    using spsi_closed [OF assms(1,2,3,4) s assms(5)] by (simp add: comp_def)
  have f: "\<forall>j. j < ?N \<longrightarrow>
              ?vs ! j = of_real (f0 c) * ?s ! j
                       / (of_real H * (of_real (spec_K2 c j) - of_real (beta c / u c)
                                        - \<i> * of_real (spec_eps c j)))"
    by (simp add: spec_spsi_def spec_denom_def)
  have z: "?vs ! 0 = 0"
    using N sh_0 [OF s] by (simp add: spec_spsi_0)
  have i: "ifft ?vs = Inr ?ps"
    using N by (simp add: ifft_def)
  have p: "psi c h = Inr (Some (map Re ?ps))"
    using psi_closed [OF assms(1,2,3,4) s assms(5)] by (simp add: comp_def)
  have l: "length ?vs = ?N" by simp
  from s sp l f z i p K2_closed [OF assms(3)] Ks2_finite [OF assms(2)]
    eps_closed [OF assms(1,2,3)]
  show ?thesis by blast
qed

theorem transfer_formula_witness:
  "tau pair_config \<noteq> 0 \<and> u pair_config \<noteq> 0 \<and> Lx pair_config \<noteq> 0 \<and>
   (m pair_config)\<^sup>2 \<noteq> beta pair_config / u pair_config \<and>
   length [1, 0 :: real] = nat (n pair_config) \<and> 0 < n pair_config \<and>
   (\<exists>vs ps. spsi pair_config [1, 0] = Inr (map Some vs) \<and> length vs = 2 \<and> vs ! 0 = 0 \<and>
      ifft vs = Inr ps \<and> psi pair_config [1, 0] = Inr (Some (map Re ps)))"
proof -
  from transfer_formula [OF pair_valid] obtain s vs ps where
    "spsi pair_config [1, 0] = Inr (map Some vs)" "length vs = nat (n pair_config)"
    "vs ! 0 = 0" "ifft vs = Inr ps" "psi pair_config [1, 0] = Inr (Some (map Re ps))"
    by blast
  then have "\<exists>vs ps. spsi pair_config [1, 0] = Inr (map Some vs) \<and> length vs = 2 \<and>
      vs ! 0 = 0 \<and> ifft vs = Inr ps \<and> psi pair_config [1, 0] = Inr (Some (map Re ps))"
    by auto
  with pair_valid show ?thesis by blast
qed

text \<open>
  C1, as the claim states it, fails: for a positive wind with \<open>Ks2 = m\<^sup>2\<close> the entry 0 of
  \<open>spsi\<close> is the quotient of 0 by 0, not 0, and the result is not a field of finite
  numbers.
\<close>

theorem transfer_dc_counterexample:
  "0 < u resonant_config \<and> 0 < tau resonant_config \<and>
   length [1, 0 :: real] = nat (n resonant_config) \<and>
   sh [1, 0] = Inr [0, 1] \<and>
   spsi resonant_config [1, 0] = Inr [None, Some (spec_spsi resonant_config [0, 1] 1)] \<and>
   psi resonant_config [1, 0] = Inr None"
proof -
  have sp: "spsi resonant_config [1, 0] = Inr [None, Some (spec_spsi resonant_config [0, 1] 1)]"
    by (rule spsi_resonant_like [OF resonant_valid]) simp
  then have "psi resonant_config [1, 0] = Inr None"
    by (simp add: psi_def)
  with sp show ?thesis
    using beta_default_pos sh_pair by simp
qed

subsection \<open>Division by the denominator\<close>

lemma denom_nth:
  assumes "tau c \<noteq> 0" and "u c \<noteq> 0" and "Lx c \<noteq> 0" and "j < nat (n c)"
    and "eps c = Inr ev"
  shows "denom c (K2 c ! j) (ev ! j) = Some (spec_denom c j)" and "ev ! j = Some (spec_eps c j)"
proof -
  have ev: "ev = map (\<lambda>j. Some (spec_eps c j)) [0..<nat (n c)]"
    using eps_closed [OF assms(1,2,3)] assms(5) by simp
  show "ev ! j = Some (spec_eps c j)"
    using assms(4) by (simp add: ev)
  then show "denom c (K2 c ! j) (ev ! j) = Some (spec_denom c j)"
    using assms(4) by (simp add: K2_closed [OF assms(3)] denom_closed [OF assms(2)])
qed

text \<open>
  C4, as the code has it. For a positive wind and damping time (on a circle of non-zero
  length) the denominator \<open>H * (K2[j] - Ks2 - i * eps[j])\<close> of every index
  \<open>1 \<le> j \<le> n - 1\<close> is finite and non-zero, its imaginary part \<open>- H * eps[j]\<close> being
  non-zero. The entry 0 is divided as well, by \<open>H * (m\<^sup>2 - Ks2)\<close>; when \<open>m\<^sup>2 \<noteq> Ks2\<close> no
  division producing an entry of \<open>spsi\<close> has a zero divisor.
\<close>

theorem denominator_nonzero:
  assumes "0 < u c" and "0 < tau c" and "Lx c \<noteq> 0"
  shows "\<exists>ev. eps c = Inr ev \<and>
           (\<forall>j. 1 \<le> j \<and> j < nat (n c) \<longrightarrow>
              (\<exists>d e. denom c (K2 c ! j) (ev ! j) = Some d \<and> d \<noteq> 0 \<and>
                     ev ! j = Some e \<and> e \<noteq> 0 \<and> Im d = - (H * e) \<and> Im d \<noteq> 0)) \<and>
           (0 < n c \<longrightarrow>
              denom c (K2 c ! 0) (ev ! 0) = Some (of_real (H * ((m c)\<^sup>2 - beta c / u c)))) \<and>
           ((m c)\<^sup>2 \<noteq> beta c / u c \<longrightarrow>
              (\<forall>h. length h = nat (n c) \<and> 0 < n c \<longrightarrow> (\<exists>vs. spsi c h = Inr (map Some vs))))"
proof -
  have t: "tau c \<noteq> 0" and w: "u c \<noteq> 0" using assms by simp_all
  from t obtain ev where ev: "eps c = Inr ev" using eps_returns by blast
  have a: "\<exists>d e. denom c (K2 c ! j) (ev ! j) = Some d \<and> d \<noteq> 0 \<and>
                 ev ! j = Some e \<and> e \<noteq> 0 \<and> Im d = - (H * e) \<and> Im d \<noteq> 0"
    if "1 \<le> j" "j < nat (n c)" for j
  proof -
    have e: "spec_eps c j \<noteq> 0"
      by (rule spec_eps_nonzero [OF t w assms(3) that(1)])
    then have "Im (spec_denom c j) \<noteq> 0"
      using H_nonzero by (simp add: Im_spec_denom)
    with e show ?thesis
      using denom_nth [OF t w assms(3) that(2) ev]
        spec_denom_nonzero [OF t w assms(3) that(1)] Im_spec_denom [of c j]
      by blast
  qed
  have b: "denom c (K2 c ! 0) (ev ! 0) = Some (of_real (H * ((m c)\<^sup>2 - beta c / u c)))"
    if "0 < n c"
    using denom_nth(1) [OF t w assms(3) _ ev, of 0] that by (simp add: spec_denom_0)
  have d: "\<exists>vs. spsi c h = Inr (map Some vs)"
    if "(m c)\<^sup>2 \<noteq> beta c / u c" "length h = nat (n c)" "0 < n c" for h
  proof -
    from that(2,3) have "h \<noteq> []" by (rule nonempty_of_length)
    then obtain s where s: "sh h = Inr s" using sh_returns by blast
    have "spsi c h = Inr (map Some (map (spec_spsi c s) [0..<nat (n c)]))"
      using spsi_closed [OF t w assms(3) that(1) s that(2)] by (simp add: comp_def)
    then show ?thesis by blast
  qed
  from ev a b d show ?thesis by blast
qed

theorem denominator_nonzero_witness:
  "0 < u pair_config \<and> 0 < tau pair_config \<and> Lx pair_config \<noteq> 0 \<and>
   (\<exists>ev. eps pair_config = Inr ev \<and>
      (\<exists>d e. denom pair_config (K2 pair_config ! 1) (ev ! 1) = Some d \<and> d \<noteq> 0 \<and>
             ev ! 1 = Some e \<and> e \<noteq> 0 \<and> Im d = - (H * e) \<and> Im d \<noteq> 0) \<and>
      denom pair_config (K2 pair_config ! 0) (ev ! 0)
        = Some (of_real (H * ((m pair_config)\<^sup>2 - beta pair_config / u pair_config))) \<and>
      (\<exists>vs. spsi pair_config [1, 0] = Inr (map Some vs)))"
proof -
  have h: "0 < u pair_config" "0 < tau pair_config" "Lx pair_config \<noteq> 0"
    using Lx_default_pos by simp_all
  from denominator_nonzero [OF h] obtain ev where
    ev: "eps pair_config = Inr ev"
    and a: "\<forall>j. 1 \<le> j \<and> j < nat (n pair_config) \<longrightarrow>
              (\<exists>d e. denom pair_config (K2 pair_config ! j) (ev ! j) = Some d \<and> d \<noteq> 0 \<and>
                     ev ! j = Some e \<and> e \<noteq> 0 \<and> Im d = - (H * e) \<and> Im d \<noteq> 0)"
    and b: "0 < n pair_config \<longrightarrow>
              denom pair_config (K2 pair_config ! 0) (ev ! 0)
                = Some (of_real (H * ((m pair_config)\<^sup>2 - beta pair_config / u pair_config)))"
    and d: "(m pair_config)\<^sup>2 \<noteq> beta pair_config / u pair_config \<longrightarrow>
              (\<forall>h. length h = nat (n pair_config) \<and> 0 < n pair_config
                     \<longrightarrow> (\<exists>vs. spsi pair_config h = Inr (map Some vs)))"
    by blast
  from a have "\<exists>d e. denom pair_config (K2 pair_config ! 1) (ev ! 1) = Some d \<and> d \<noteq> 0 \<and>
             ev ! 1 = Some e \<and> e \<noteq> 0 \<and> Im d = - (H * e) \<and> Im d \<noteq> 0"
    by (rule allE [where x = 1]) simp
  moreover from d pair_valid have "\<exists>vs. spsi pair_config [1, 0] = Inr (map Some vs)"
    by blast
  moreover from b pair_valid(6) have
    "denom pair_config (K2 pair_config ! 0) (ev ! 0)
       = Some (of_real (H * ((m pair_config)\<^sup>2 - beta pair_config / u pair_config)))"
    by blast
  ultimately show ?thesis using h ev by blast
qed

text \<open>
  C4, as the claim states it, fails: with \<open>u > 0\<close>, \<open>tau > 0\<close> and \<open>m \<noteq> 0\<close> the
  denominator of index 0 is \<open>H * (m\<^sup>2 - Ks2) = 0\<close> when \<open>Ks2 = m\<^sup>2\<close>, and the zeroed
  coefficient is divided by it.
\<close>

theorem denominator_dc_counterexample:
  "0 < u resonant_config \<and> 0 < tau resonant_config \<and> m resonant_config \<noteq> 0 \<and>
   K2 resonant_config ! 0 = Some 1 \<and> Ks2 resonant_config = Some 1 \<and>
   eps resonant_config = Inr [Some 0, Some (spec_eps resonant_config 1)] \<and>
   denom resonant_config (Some 1) (Some 0) = Some 0 \<and>
   spsi_entry resonant_config 0 (Some 1) (Some 0) = None"
proof -
  have L: "Lx resonant_config \<noteq> 0" by (rule resonant_valid(3))
  have K: "K2 resonant_config ! 0 = Some 1"
    unfolding K2_closed [OF L] by (simp add: spec_K2_def spec_k_def)
  have S: "Ks2 resonant_config = Some 1"
    using Ks2_finite [OF resonant_valid(2)] beta_default_pos by simp
  have e: "eps resonant_config = Inr [Some 0, Some (spec_eps resonant_config 1)]"
    unfolding eps_closed [OF resonant_valid(1,2,3)] by (simp add: upt_2 spec_eps_def)
  have d: "denom resonant_config (Some 1) (Some 0) = Some 0"
    by (simp add: denom_def S)
  then have "spsi_entry resonant_config 0 (Some 1) (Some 0) = None"
    by (simp add: spsi_entry_def cdiv_def)
  with K S e d show ?thesis
    using beta_default_pos by simp
qed

subsection \<open>Hermitian symmetry\<close>

lemma hermitian_nth:
  "hermitian s \<longleftrightarrow> (\<forall>j<length s. s ! ((length s - j) mod length s) = cnj (s ! j))"
  by (simp add: hermitian_def list_all_iff Ball_def)

lemma hermitian_mirror:
  assumes "hermitian s" and "1 \<le> j" and "j < length s"
  shows "s ! (length s - j) = cnj (s ! j)"
proof -
  from assms(1,3) have "s ! ((length s - j) mod length s) = cnj (s ! j)"
    unfolding hermitian_nth by blast
  moreover have "(length s - j) mod length s = length s - j"
    using assms(2,3) by simp
  ultimately show ?thesis by simp
qed

lemma sh_hermitian:
  assumes "sh h = Inr s"
  shows "hermitian s"
  unfolding hermitian_nth
proof (intro allI impI)
  fix j assume "j < length s"
  then have j: "j < length h" using length_sh [OF assms] by simp
  show "s ! ((length s - j) mod length s) = cnj (s ! j)"
  proof (cases "j = 0")
    case True
    then show ?thesis using sh_0 [OF assms] by simp
  next
    case False
    then have "1 \<le> j" by simp
    from sh_mirror [OF assms this j] show ?thesis
      using length_sh [OF assms] j False by simp
  qed
qed

lemma spec_spsi_not_hermitian:
  assumes "tau c \<noteq> 0" and "u c \<noteq> 0" and "Lx c \<noteq> 0" and "f0 c \<noteq> 0"
    and "2 \<le> N" and "length s = N" and "hermitian s" and "s ! 1 \<noteq> 0"
  shows "\<not> hermitian (map (spec_spsi c s) [0..<N])"
proof
  assume "hermitian (map (spec_spsi c s) [0..<N])"
  from hermitian_mirror [OF this, of 1]
  have v: "spec_spsi c s (N - 1) = cnj (spec_spsi c s 1)"
    using assms(5) by simp
  from hermitian_mirror [OF assms(7), of 1]
  have "s ! (N - 1) = cnj (s ! 1)"
    using assms(5,6) by simp
  from spec_spsi_not_mirror [OF assms(1,2,3,4,5) this assms(8)] v
  show False by simp
qed

lemma real_ifft_hermitian:
  assumes "\<forall>l<length v. Im (ifft_entry v l) = 0"
  shows "hermitian v"
  unfolding hermitian_nth
proof (intro allI impI)
  fix j assume j: "j < length v"
  show "v ! ((length v - j) mod length v) = cnj (v ! j)"
  proof (cases "j = 0")
    case True
    have ne: "v \<noteq> []" using j by (cases v) simp_all
    have "Im (\<Sum>l<length v. ifft_entry v l) = 0"
      using assms by (simp add: Im_sum)
    then have "Im (v ! 0) = 0"
      by (simp only: sum_ifft_entries [OF ne])
    then show ?thesis using True by (simp add: complex_eq_iff)
  next
    case False
    then have "1 \<le> j" by simp
    from real_ifft_mirror [OF assms this j] show ?thesis
      using j False by simp
  qed
qed

text \<open>
  The transfer function takes \<open>K2[j]\<close> and \<open>eps[j]\<close> at the index \<open>j = 0..n-1\<close>
  itself, also above \<open>n / 2\<close>, where the coefficient belongs to the wavenumber
  \<open>j - n\<close>. For a real topography of length \<open>n \<ge> 2\<close> the zeroed spectrum \<open>sh\<close> is
  Hermitian-symmetric, but whenever \<open>f0 \<noteq> 0\<close> and \<open>sh[1] \<noteq> 0\<close> the spectrum \<open>spsi\<close>
  is not, and its inverse transform has a non-zero imaginary part at some grid point.
\<close>

lemma spsi_symmetry_lost:
  assumes "tau c \<noteq> 0" and "u c \<noteq> 0" and "Lx c \<noteq> 0" and "(m c)\<^sup>2 \<noteq> beta c / u c"
    and "length h = nat (n c)" and "2 \<le> n c"
    and "sh h = Inr s" and "f0 c \<noteq> 0" and "s ! 1 \<noteq> 0"
  shows "hermitian s \<and>
         spsi c h = Inr (map Some (map (spec_spsi c s) [0..<nat (n c)])) \<and>
         \<not> hermitian (map (spec_spsi c s) [0..<nat (n c)]) \<and>
         (\<exists>l. l < nat (n c) \<and> Im (ifft_entry (map (spec_spsi c s) [0..<nat (n c)]) l) \<noteq> 0) \<and>
         psi c h = Inr (Some (map (\<lambda>l. Re (ifft_entry (map (spec_spsi c s) [0..<nat (n c)]) l))
                                [0..<nat (n c)]))"
proof -
  let ?N = "nat (n c)"
  let ?v = "map (spec_spsi c s) [0..<?N]"
  have N: "2 \<le> ?N" using assms(6) by simp
  have len: "length s = ?N" using length_sh [OF assms(7)] assms(5) by simp
  have hs: "hermitian s" by (rule sh_hermitian [OF assms(7)])
  have nh: "\<not> hermitian ?v"
    by (rule spec_spsi_not_hermitian [OF assms(1,2,3,8) N len hs assms(9)])
  have "\<not> (\<forall>l<length ?v. Im (ifft_entry ?v l) = 0)"
    using nh real_ifft_hermitian [of ?v] by blast
  then have im: "\<exists>l. l < ?N \<and> Im (ifft_entry ?v l) \<noteq> 0"
    by auto
  have sp: "spsi c h = Inr (map Some ?v)"
    using spsi_closed [OF assms(1,2,3,4,7,5)] by (simp add: comp_def)
  from hs sp nh im psi_closed [OF assms(1,2,3,4,7,5)] show ?thesis by blast
qed

lemma quad_fields [simp]:
  "tau quad_config = 430820" "u quad_config = 25" "n quad_config = 4"
  "Lx quad_config = Lx default_config" "beta quad_config = beta default_config"
  "f0 quad_config = f0 default_config" "m quad_config = m default_config"
  by (simp_all add: quad_config_def Lx_def beta_def f0_def latr_def)

lemma quad_valid:
  "tau quad_config \<noteq> 0" "u quad_config \<noteq> 0" "Lx quad_config \<noteq> 0"
  "(m quad_config)\<^sup>2 \<noteq> beta quad_config / u quad_config"
  "length [1, 0, 0, 0 :: real] = nat (n quad_config)" "2 \<le> n quad_config"
  using Lx_default_pos less_imp_neq [OF default_not_resonant] by simp_all

lemma upt_4: "[0..<4] = [0, 1, 2, 3]"
  by (simp add: upt_rec [of _ "numeral _"] upt_rec [of _ "Suc _"] eval_nat_numeral)

lemma sh_quad: "sh [1, 0, 0, 0] = Inr [0, 1, 1, 1]"
  by (simp add: sh_def fft_def fft_entry_def upt_rec [of _ "numeral _"] upt_rec [of _ "Suc _"]
      lessThan_Suc eval_nat_numeral)

lemma spsi_symmetry_lost_quad:
  "tau quad_config \<noteq> 0 \<and> u quad_config \<noteq> 0 \<and> Lx quad_config \<noteq> 0 \<and>
   (m quad_config)\<^sup>2 \<noteq> beta quad_config / u quad_config \<and>
   length [1, 0, 0, 0 :: real] = nat (n quad_config) \<and> 2 \<le> n quad_config \<and>
   sh [1, 0, 0, 0] = Inr [0, 1, 1, 1] \<and> f0 quad_config \<noteq> 0 \<and>
   [0, 1, 1, 1 :: complex] ! 1 \<noteq> 0 \<and>
   hermitian [0, 1, 1, 1] \<and>
   \<not> hermitian (map (spec_spsi quad_config [0, 1, 1, 1]) [0..<nat (n quad_config)]) \<and>
   (\<exists>l. l < nat (n quad_config) \<and>
        Im (ifft_entry (map (spec_spsi quad_config [0, 1, 1, 1]) [0..<nat (n quad_config)]) l)
          \<noteq> 0)"
proof -
  have h: "f0 quad_config \<noteq> 0" "[0, 1, 1, 1 :: complex] ! 1 \<noteq> 0"
    using f0_default_pos by simp_all
  from spsi_symmetry_lost [OF quad_valid sh_quad h]
  have "hermitian [0, 1, 1, 1] \<and>
        \<not> hermitian (map (spec_spsi quad_config [0, 1, 1, 1]) [0..<nat (n quad_config)]) \<and>
        (\<exists>l. l < nat (n quad_config) \<and>
           Im (ifft_entry (map (spec_spsi quad_config [0, 1, 1, 1]) [0..<nat (n quad_config)]) l)
             \<noteq> 0)"
    by blast
  with quad_valid h sh_quad show ?thesis by blast
qed

lemma sqrt2_lt: "sqrt 2 < 15 / 10"
  by (rule real_less_lsqrt) (simp_all add: power2_eq_square)

lemma quad_spec_k:
  assumes "1 \<le> j" and "j \<le> 3"
  shows "0 < spec_k quad_config j" and "spec_k quad_config j \<le> 1"
proof -
  have kj: "spec_k quad_config j = 2 * real j / (a * sqrt 2)"
    by (simp add: spec_k_def Lx_default)
  show "0 < spec_k quad_config j"
    unfolding kj using assms(1) by (simp add: a_def)
  have "1 \<le> sqrt 2" by simp
  then have "6 \<le> a * sqrt 2"
    unfolding a_def by linarith
  moreover have "2 * real j \<le> 6" using assms(2) by simp
  ultimately have "2 * real j \<le> a * sqrt 2" by linarith
  then show "spec_k quad_config j \<le> 1"
    unfolding kj by (simp add: a_def)
qed

lemma quad_Ks2_bound: "beta quad_config / u quad_config < 2 * (m quad_config)\<^sup>2"
proof -
  have m2: "2 * (m quad_config)\<^sup>2 = pi * (pi / 8000000000000)"
    by (simp add: power2_eq_square)
  have b: "beta quad_config / u quad_config = pi * (2 * sqrt 2 / 13723771100000)"
    using beta_default by (simp add: omega_def a_def)
  have "2 * sqrt 2 / 13723771100000 < pi / 8000000000000"
    using pi_gt_31 sqrt2_lt by simp
  then have "pi * (2 * sqrt 2 / 13723771100000) < pi * (pi / 8000000000000)"
    by (rule mult_strict_left_mono) simp
  then show ?thesis
    unfolding m2 b .
qed

text \<open>
  With the notebook's parameters the damping term of the first wavenumbers is far
  above \<open>10\<^sup>-\<^sup>9\<close> times the real part of the denominator.
\<close>

lemma quad_damping_dominates:
  assumes "1 \<le> j" and "j \<le> 3"
  shows "(1 / 10 ^ 9) * \<bar>Re (spec_denom quad_config j)\<bar> < - Im (spec_denom quad_config j)"
proof -
  let ?K = "spec_K2 quad_config j"
  let ?S = "beta quad_config / u quad_config"
  let ?e = "spec_eps quad_config j"
  let ?k = "spec_k quad_config j"
  have Kpos: "0 < ?K"
    using spec_K2_pos [OF quad_valid(3) assms(1)] .
  have Km: "(m quad_config)\<^sup>2 \<le> ?K"
    by (simp add: spec_K2_def)
  have Spos: "0 < ?S"
    using beta_default_pos by simp
  have "\<bar>?K - ?S\<bar> \<le> ?K + ?S"
    using Kpos Spos by linarith
  also have "\<dots> < 3 * ?K"
    using quad_Ks2_bound Km by linarith
  finally have re: "\<bar>?K - ?S\<bar> < 3 * ?K" .
  have e: "?e = ?K / (10770500 * ?k)"
    using assms(1) by (simp add: spec_eps_def mult_ac)
  have "0 < 10770500 * ?k" "10770500 * ?k \<le> 10770500"
    using quad_spec_k [OF assms] by simp_all
  then have "?K / 10770500 \<le> ?K / (10770500 * ?k)"
    using Kpos by (intro divide_left_mono) simp_all
  then have im: "?K / 10770500 \<le> ?e"
    unfolding e .
  have "(1 / 10 ^ 9) * \<bar>?K - ?S\<bar> < ?K / 10770500"
    using re Kpos by simp
  also have "\<dots> \<le> ?e"
    using im .
  finally have "(1 / 10 ^ 9) * \<bar>?K - ?S\<bar> < ?e" .
  then have "H * ((1 / 10 ^ 9) * \<bar>?K - ?S\<bar>) < H * ?e"
    by (rule mult_strict_left_mono) (simp add: H_def)
  then show ?thesis
    unfolding Re_spec_denom Im_spec_denom by (simp add: abs_mult H_def)
qed

lemma Re_Im_real_quotient:
  "Re (complex_of_real p / d) = p * Re d / ((Re d)\<^sup>2 + (Im d)\<^sup>2)"
  "Im (complex_of_real p / d) = - (p * Im d) / ((Re d)\<^sup>2 + (Im d)\<^sup>2)"
  by (simp_all add: Re_divide Im_divide)

lemma quad_response:
  assumes "1 \<le> j" and "j \<le> 3"
  shows "(1 / 10 ^ 9) * \<bar>Re (spec_spsi quad_config [0, 1, 1, 1] j)\<bar>
           < Im (spec_spsi quad_config [0, 1, 1, 1] j)"
proof -
  let ?d = "spec_denom quad_config j"
  let ?q = "(Re ?d)\<^sup>2 + (Im ?d)\<^sup>2"
  let ?f = "f0 quad_config"
  have d: "?d \<noteq> 0"
    using spec_denom_nonzero [OF quad_valid(1,2,3) assms(1)] .
  then have q: "0 < ?q"
    by (simp add: complex_eq_iff sum_power2_gt_zero_iff)
  have f: "0 < ?f" using f0_default_pos by simp
  have "j = 1 \<or> j = 2 \<or> j = 3" using assms by linarith
  then have "[0, 1, 1, 1 :: complex] ! j = 1" by auto
  then have z: "spec_spsi quad_config [0, 1, 1, 1] j = complex_of_real ?f / ?d"
    by (simp add: spec_spsi_def)
  have "(1 / 10 ^ 9) * \<bar>Re ?d\<bar> * (?f / ?q) < - Im ?d * (?f / ?q)"
    using quad_damping_dominates [OF assms] f q by (intro mult_strict_right_mono) simp_all
  moreover have "\<bar>Re (complex_of_real ?f / ?d)\<bar> = \<bar>Re ?d\<bar> * (?f / ?q)"
    using f q by (simp add: Re_Im_real_quotient abs_mult)
  moreover have "Im (complex_of_real ?f / ?d) = - Im ?d * (?f / ?q)"
    by (simp add: Re_Im_real_quotient)
  ultimately show ?thesis
    unfolding z by simp
qed

lemma tolerance_sum:
  fixes p1 p2 p3 q1 q2 q3 t :: real
  assumes "t * \<bar>p1\<bar> < q1" and "t * \<bar>p2\<bar> < q2" and "t * \<bar>p3\<bar> < q3" and "0 \<le> t"
  shows "t * \<bar>p1 + p2 + p3\<bar> < q1 + q2 + q3" and "0 < q1 + q2 + q3"
proof -
  have "\<bar>p1 + p2 + p3\<bar> \<le> \<bar>p1\<bar> + \<bar>p2\<bar> + \<bar>p3\<bar>"
    by linarith
  then have "t * \<bar>p1 + p2 + p3\<bar> \<le> t * (\<bar>p1\<bar> + \<bar>p2\<bar> + \<bar>p3\<bar>)"
    using assms(4) by (rule mult_left_mono)
  also have "\<dots> = t * \<bar>p1\<bar> + t * \<bar>p2\<bar> + t * \<bar>p3\<bar>"
    by (simp add: distrib_left)
  also have "\<dots> < q1 + q2 + q3"
    using assms(1,2,3) by linarith
  finally show "t * \<bar>p1 + p2 + p3\<bar> < q1 + q2 + q3" .
  moreover have "0 \<le> t * \<bar>p1 + p2 + p3\<bar>"
    using assms(4) by simp
  ultimately show "0 < q1 + q2 + q3" by linarith
qed

lemma ifft_entry_quad_0: "ifft_entry [0, z1, z2, z3] 0 = (z1 + z2 + z3) / 4"
  by (simp add: ifft_entry_def lessThan_Suc eval_nat_numeral)

text \<open>
  C2. The response to a real topography is documented as the real part of
  \<open>psi_0 * exp (i k x)\<close>, which needs \<open>spsi\<close> to keep the Hermitian symmetry of \<open>sh\<close>.
  The code does not keep it. On four grid points with the notebook's parameters and the
  real topography \<open>[1, 0, 0, 0]\<close>, the input spectrum \<open>[0, 1, 1, 1]\<close> is
  Hermitian-symmetric and \<open>spsi\<close> is not: its coefficient 3 is not the conjugate of
  its coefficient 1. At grid point 0 the imaginary part of the inverse transform, which
  the code discards, is positive and more than \<open>10\<^sup>-\<^sup>9\<close> times the real part.
\<close>

theorem symmetry_counterexample:
  "sh [1, 0, 0, 0] = Inr [0, 1, 1, 1] \<and> hermitian [0, 1, 1, 1] \<and>
   spsi quad_config [1, 0, 0, 0] =
     Inr [Some 0, Some (spec_spsi quad_config [0, 1, 1, 1] 1),
          Some (spec_spsi quad_config [0, 1, 1, 1] 2),
          Some (spec_spsi quad_config [0, 1, 1, 1] 3)] \<and>
   spec_spsi quad_config [0, 1, 1, 1] 3 \<noteq> cnj (spec_spsi quad_config [0, 1, 1, 1] 1) \<and>
   \<not> hermitian [0, spec_spsi quad_config [0, 1, 1, 1] 1,
                 spec_spsi quad_config [0, 1, 1, 1] 2,
                 spec_spsi quad_config [0, 1, 1, 1] 3] \<and>
   0 < Im (ifft_entry [0, spec_spsi quad_config [0, 1, 1, 1] 1,
                       spec_spsi quad_config [0, 1, 1, 1] 2,
                       spec_spsi quad_config [0, 1, 1, 1] 3] 0) \<and>
   (1 / 10 ^ 9) * \<bar>Re (ifft_entry [0, spec_spsi quad_config [0, 1, 1, 1] 1,
                                   spec_spsi quad_config [0, 1, 1, 1] 2,
                                   spec_spsi quad_config [0, 1, 1, 1] 3] 0)\<bar>
     < \<bar>Im (ifft_entry [0, spec_spsi quad_config [0, 1, 1, 1] 1,
                         spec_spsi quad_config [0, 1, 1, 1] 2,
                         spec_spsi quad_config [0, 1, 1, 1] 3] 0)\<bar>"
proof -
  let ?z1 = "spec_spsi quad_config [0, 1, 1, 1] 1"
  let ?z2 = "spec_spsi quad_config [0, 1, 1, 1] 2"
  let ?z3 = "spec_spsi quad_config [0, 1, 1, 1] 3"
  have hs: "hermitian [0, 1, 1, 1]"
    by (rule sh_hermitian [OF sh_quad])
  have "spsi quad_config [1, 0, 0, 0]
          = Inr (map (\<lambda>j. Some (spec_spsi quad_config [0, 1, 1, 1] j)) [0..<4])"
    using spsi_closed [OF quad_valid(1,2,3,4) sh_quad quad_valid(5)] by simp
  then have sp: "spsi quad_config [1, 0, 0, 0] = Inr [Some 0, Some ?z1, Some ?z2, Some ?z3]"
    unfolding upt_4 by (simp add: spec_spsi_0)
  have f: "f0 quad_config \<noteq> 0" using f0_default_pos by simp
  have "spec_spsi quad_config [0, 1, 1, 1] (4 - 1) \<noteq> cnj ?z1"
    by (rule spec_spsi_not_mirror [OF quad_valid(1,2,3) f]) simp_all
  then have nm: "?z3 \<noteq> cnj ?z1" by simp
  have nh: "\<not> hermitian [0, ?z1, ?z2, ?z3]"
  proof
    assume "hermitian [0, ?z1, ?z2, ?z3]"
    from hermitian_mirror [OF this, of 1] have "?z3 = cnj ?z1" by simp
    with nm show False by simp
  qed
  have t: "(1 / 10 ^ 9) * \<bar>Re ?z1\<bar> < Im ?z1" "(1 / 10 ^ 9) * \<bar>Re ?z2\<bar> < Im ?z2"
    "(1 / 10 ^ 9) * \<bar>Re ?z3\<bar> < Im ?z3"
    by (rule quad_response; simp)+
  have b: "(1 / 10 ^ 9) * \<bar>Re ?z1 + Re ?z2 + Re ?z3\<bar> < Im ?z1 + Im ?z2 + Im ?z3"
    by (rule tolerance_sum(1) [OF t]) simp
  have pos: "0 < Im ?z1 + Im ?z2 + Im ?z3"
    by (rule tolerance_sum(2) [OF t]) simp
  have im: "0 < Im ((?z1 + ?z2 + ?z3) / 4)"
    using pos by simp
  have "(1 / 10 ^ 9) * \<bar>Re ((?z1 + ?z2 + ?z3) / 4)\<bar> < \<bar>Im ((?z1 + ?z2 + ?z3) / 4)\<bar>"
    using b pos by simp
  with sh_quad hs sp nm nh im show ?thesis
    unfolding ifft_entry_quad_0 by blast
qed

end
